theory Spec2Isabelle
  imports Main
begin

section \<open>Python string primitives used by \<^verbatim>\<open>scripts/keep_alive.py\<close>\<close>

text \<open>
  A Python \<^verbatim>\<open>str\<close> is modelled as a \<^typ>\<open>string\<close> whose characters are read as code
  points below 256. \<^verbatim>\<open>str.strip()\<close> without argument removes the characters for which
  \<^verbatim>\<open>str.isspace()\<close> holds; below 256 these are the code points 9 to 13, 28 to 32, 133
  and 160.
\<close>

definition isspace :: "char \<Rightarrow> bool" where
  "isspace c = (of_char c \<in> {9::nat, 10, 11, 12, 13, 28, 29, 30, 31, 32, 133, 160})"

definition str_strip :: "string \<Rightarrow> string" where
  "str_strip s = rev (dropWhile isspace (rev (dropWhile isspace s)))"

text \<open>\<^verbatim>\<open>s.split(c)\<close> for a one-character separator: never empty, one more piece than
  there are separators.\<close>

fun str_split :: "char \<Rightarrow> string \<Rightarrow> string list" where
  "str_split c [] = [[]]"
| "str_split c (x # xs) =
     (if x = c then [] # str_split c xs
      else (case str_split c xs of [] \<Rightarrow> [[x]] | y # ys \<Rightarrow> (x # y) # ys))"

text \<open>\<^verbatim>\<open>s.split(c, 1)\<close>: cut at the first separator only; a single piece when there is
  none.\<close>

definition str_split1 :: "char \<Rightarrow> string \<Rightarrow> string list" where
  "str_split1 c s =
     (if c \<in> set s then [takeWhile (\<lambda>x. x \<noteq> c) s, tl (dropWhile (\<lambda>x. x \<noteq> c) s)]
      else [s])"

text \<open>\<^verbatim>\<open>sep.join(items)\<close>.\<close>

fun str_join :: "string \<Rightarrow> string list \<Rightarrow> string" where
  "str_join sep [] = []"
| "str_join sep [x] = x"
| "str_join sep (x # y # ys) = x @ sep @ str_join sep (y # ys)"

text \<open>\<^verbatim>\<open>p in s\<close> on strings: \<open>p\<close> occurs in \<open>s\<close> as a contiguous run.\<close>

fun str_prefix :: "string \<Rightarrow> string \<Rightarrow> bool" where
  "str_prefix [] s = True"
| "str_prefix (p # ps) [] = False"
| "str_prefix (p # ps) (x # xs) = (p = x \<and> str_prefix ps xs)"

fun str_in :: "string \<Rightarrow> string \<Rightarrow> bool" where
  "str_in p [] = (p = [])"
| "str_in p (x # xs) = (str_prefix p (x # xs) \<or> str_in p xs)"

section \<open>Cookie handling\<close>

text \<open>
  A cookie is the dictionary Playwright exchanges. \<^verbatim>\<open>format_cookies\<close> reads the domain
  with \<^verbatim>\<open>c.get('domain', '')\<close>, so the domain key may be missing: it is an option.
\<close>

record cookie =
  name :: string
  "value" :: string
  domain :: "string option"
  path :: string

text \<open>
  Exceptions are values. A function that can raise returns \<open>exn + 'a\<close>, with \<open>Inl\<close> for
  the exception that leaves it. \<^verbatim>\<open>HTTPError\<close> carries the status code.
\<close>

datatype exn =
    IndexError | KeyError | ValueError | OSError
  | HTTPError nat | RequestException | JSONDecodeError | CryptoError | PlaywrightError

text \<open>\<^verbatim>\<open>xs[i]\<close> for a non-negative literal index: \<^verbatim>\<open>IndexError\<close> out of range.\<close>

definition py_index :: "'a list \<Rightarrow> nat \<Rightarrow> exn + 'a" where
  "py_index xs i = (if i < length xs then Inr (xs ! i) else Inl IndexError)"

text \<open>The body of the \<^verbatim>\<open>for cookie in cookie_string.split(';')\<close> loop of
  \<^verbatim>\<open>parse_cookies\<close>, with the list \<^verbatim>\<open>cookies\<close> built so far as accumulator.\<close>

fun parse_loop :: "string list \<Rightarrow> cookie list \<Rightarrow> exn + cookie list" where
  "parse_loop [] cookies = Inr cookies"
| "parse_loop (c # rest) cookies =
     (let parts = str_split1 (CHR ''='') (str_strip c) in
      if length parts = 2
      then (case py_index parts 0 of
              Inl e \<Rightarrow> Inl e
            | Inr n \<Rightarrow>
               (case py_index parts 1 of
                  Inl e \<Rightarrow> Inl e
                | Inr v \<Rightarrow>
                    parse_loop rest (cookies @
                      [\<lparr>name = str_strip n, value = str_strip v,
                        domain = Some ''.zeabur.com'', path = ''/''\<rparr>])))
      else parse_loop rest cookies)"

definition parse_cookies :: "string \<Rightarrow> exn + cookie list" where
  "parse_cookies cookie_string = parse_loop (str_split (CHR '';'') cookie_string) []"

definition get_domain :: "cookie \<Rightarrow> string" where
  "get_domain c = (case domain c of None \<Rightarrow> [] | Some d \<Rightarrow> d)"

definition format_cookies :: "cookie list \<Rightarrow> string" where
  "format_cookies cookies =
     str_join ''; '' (map (\<lambda>c. name c @ ''='' @ value c)
                          (filter (\<lambda>c. str_in ''zeabur.com'' (get_domain c)) cookies))"

section \<open>The browser context and the login loop\<close>

text \<open>
  A page is a handle, a number the context hands out in order. The calls the program makes
  on the context and its pages, and its calls of \<^verbatim>\<open>time.sleep\<close>, are recorded in order in
  the \<open>trace\<close> of the context. The site is an oracle \<open>site\<close>: for the page navigated,
  either the URL the page shows after \<^verbatim>\<open>page.goto(..., wait_until='networkidle')\<close> and
  \<^verbatim>\<open>page.wait_for_timeout(3000)\<close>, or the fact that one of the two raised. Opening and
  closing a page and adding cookies do not raise.
\<close>

definition ZEABUR_DASHBOARD_URL :: string where
  "ZEABUR_DASHBOARD_URL = ''https://zeabur.com/projects''"

datatype nav = Landed string | NavError

datatype event =
    AddCookies "cookie list"
  | NewPage nat
  | Goto nat string
  | ClosePage nat
  | Sleep int

record browser_context =
  next_page :: nat
  trace :: "event list"

definition add_cookies :: "cookie list \<Rightarrow> browser_context \<Rightarrow> browser_context" where
  "add_cookies cs ctx = ctx\<lparr>trace := trace ctx @ [AddCookies cs]\<rparr>"

definition new_page :: "browser_context \<Rightarrow> nat \<times> browser_context" where
  "new_page ctx =
     (next_page ctx,
      ctx\<lparr>next_page := Suc (next_page ctx), trace := trace ctx @ [NewPage (next_page ctx)]\<rparr>)"

definition goto :: "(nat \<Rightarrow> nav) \<Rightarrow> nat \<Rightarrow> string \<Rightarrow> browser_context \<Rightarrow> nav \<times> browser_context" where
  "goto site page url ctx = (site page, ctx\<lparr>trace := trace ctx @ [Goto page url]\<rparr>)"

definition close_page :: "nat \<Rightarrow> browser_context \<Rightarrow> browser_context" where
  "close_page page ctx = ctx\<lparr>trace := trace ctx @ [ClosePage page]\<rparr>"

definition sleep :: "int \<Rightarrow> browser_context \<Rightarrow> browser_context" where
  "sleep seconds ctx = ctx\<lparr>trace := trace ctx @ [Sleep seconds]\<rparr>"

text \<open>Lines 128 to 131: the wait at the end of a failed attempt, unless it was the last.\<close>

definition backoff :: "int \<Rightarrow> int \<Rightarrow> browser_context \<Rightarrow> browser_context" where
  "backoff max_retries attempt ctx =
     (if attempt < max_retries then sleep (5 * (attempt + 1)) ctx else ctx)"

text \<open>
  Lines 112 to 134: \<^verbatim>\<open>for attempt in range(max_retries + 1)\<close> from the iteration \<open>attempt\<close>
  on, and the return after the loop. The \<^verbatim>\<open>else\<close> branch of the URL test and the
  \<^verbatim>\<open>except\<close> clause both close the page.
\<close>

function login_loop :: "(nat \<Rightarrow> nav) \<Rightarrow> int \<Rightarrow> int \<Rightarrow> browser_context \<Rightarrow> (nat \<times> bool) \<times> browser_context" where
  "login_loop site max_retries attempt ctx =
     (if attempt < max_retries + 1 then
        (case new_page ctx of
           (page, c1) \<Rightarrow>
             (case goto site page ZEABUR_DASHBOARD_URL c1 of
                (Landed url, c2) \<Rightarrow>
                  if \<not> str_in ''/login'' url then ((page, True), c2)
                  else login_loop site max_retries (attempt + 1)
                         (backoff max_retries attempt (close_page page c2))
              | (NavError, c2) \<Rightarrow>
                  login_loop site max_retries (attempt + 1)
                    (backoff max_retries attempt (close_page page c2))))
      else (case new_page ctx of (page, c') \<Rightarrow> ((page, False), c')))"
  by pat_completeness auto
termination
  by (relation "measure (\<lambda>(site, max_retries, attempt, ctx). nat (max_retries + 1 - attempt))") auto

definition login_with_cookie ::
  "(nat \<Rightarrow> nav) \<Rightarrow> browser_context \<Rightarrow> string \<Rightarrow> int \<Rightarrow> exn + ((nat \<times> bool) \<times> browser_context)" where
  "login_with_cookie site ctx cookie_string max_retries =
     (case parse_cookies cookie_string of
        Inl e \<Rightarrow> Inl e
      | Inr cookies \<Rightarrow> Inr (login_loop site max_retries 0 (add_cookies cookies ctx)))"

text \<open>\<^verbatim>\<open>browser.new_context()\<close>: no page yet, nothing done.\<close>

definition new_context :: browser_context where
  "new_context = \<lparr>next_page = 0, trace = []\<rparr>"

declare login_loop.simps [simp del]

section \<open>Effects outside the browser context\<close>

text \<open>
  What the process does to the outside world is a list of actions, oldest first. What the
  outside world answers is a record of oracles: the program is a function of them.
  Of the lines the program writes with \<^verbatim>\<open>print\<close>, the actions hold the two that report a
  failed notification (lines 36 and 49), as \<open>Print\<close>; the progress messages of
  \<^verbatim>\<open>main\<close> and of the login loop are not recorded.
  \<^verbatim>\<open>requests\<close> either returns a response (status code and body) or raises; the body is
  \<open>None\<close> when it is not JSON and otherwise the string fields of the JSON object.
  \<^verbatim>\<open>Response.raise_for_status()\<close> raises \<^verbatim>\<open>HTTPError\<close> for the status codes 400 to 599 and
  for no other.

  A request carries what the program puts into it: for \<open>Get\<close> the URL and the token of
  the authorization header; for \<open>Put\<close> the URL, the token, the encrypted value and the key
  id; for \<open>PostJson\<close> the URL, the chat id and the text; for \<open>PostPhoto\<close> the URL, the
  chat id, the caption and the path of the file sent.
\<close>

datatype request =
    Get string string
  | Put string string string string
  | PostJson string string string
  | PostPhoto string string string string

datatype http_reply = Response nat "(string \<times> string) list option" | NetworkError

datatype action =
    Launch
  | Browser event
  | Screenshot nat string
  | ReadCookies
  | OpenFile string
  | Net request
  | Print string
  | CloseBrowser

text \<open>
  The oracles: \<open>site_of\<close> is the site as the login loop sees it; \<open>launch_ok\<close>,
  \<open>screenshot_ok\<close> and \<open>close_ok\<close> say whether starting the browser with its context,
  taking the screenshot and closing the browser succeed; \<open>jar_of\<close> is what
  \<^verbatim>\<open>context.cookies()\<close> returns or raises; \<open>reply_of\<close> answers a request; \<open>seal_of\<close> is
  the sealed-box encryption of a value under a base64 key, base64 again (lines 70 to 73),
  which raises on a key that is no key; \<open>readable\<close> says whether a file can be opened;
  \<open>clock\<close> is the formatted time of day.
\<close>

record world =
  site_of :: "nat \<Rightarrow> nav"
  launch_ok :: bool
  screenshot_ok :: bool
  jar_of :: "exn + cookie list"
  reply_of :: "request \<Rightarrow> http_reply"
  seal_of :: "string \<Rightarrow> string \<Rightarrow> exn + string"
  readable :: "string \<Rightarrow> bool"
  clock :: string
  close_ok :: bool

text \<open>A computation returns a value or the exception that leaves it, and the actions it
  performed. \<open>bind\<close> sequences two computations: the second does not run when the first
  raises.\<close>

definition bind :: "('e + 'a) \<times> action list \<Rightarrow> ('a \<Rightarrow> ('e + 'b) \<times> action list) \<Rightarrow> ('e + 'b) \<times> action list" where
  "bind m f =
     (case m of
        (Inl e, acts) \<Rightarrow> (Inl e, acts)
      | (Inr x, acts) \<Rightarrow> (case f x of (r, acts') \<Rightarrow> (r, acts @ acts')))"

definition pure :: "'e + 'a \<Rightarrow> ('e + 'a) \<times> action list" where
  "pure r = (r, [])"

definition raise_for_status :: "nat \<Rightarrow> exn + unit" where
  "raise_for_status status = (if 400 \<le> status \<and> status < 600 then Inl (HTTPError status) else Inr ())"

definition send :: "world \<Rightarrow> request \<Rightarrow> (exn + nat \<times> (string \<times> string) list option) \<times> action list" where
  "send w r =
     (case reply_of w r of
        NetworkError \<Rightarrow> (Inl RequestException, [Net r])
      | Response status body \<Rightarrow> (Inr (status, body), [Net r]))"

definition json :: "(string \<times> string) list option \<Rightarrow> exn + (string \<times> string) list" where
  "json body = (case body of None \<Rightarrow> Inl JSONDecodeError | Some obj \<Rightarrow> Inr obj)"

definition getitem :: "(string \<times> string) list \<Rightarrow> string \<Rightarrow> exn + string" where
  "getitem d k = (case map_of d k of None \<Rightarrow> Inl KeyError | Some v \<Rightarrow> Inr v)"

definition open_file :: "world \<Rightarrow> string \<Rightarrow> (exn + unit) \<times> action list" where
  "open_file w file_path = (if readable w file_path then Inr () else Inl OSError, [OpenFile file_path])"

text \<open>\<^verbatim>\<open>str(e)\<close>; only the kind of the exception is kept.\<close>

fun str_exn :: "exn \<Rightarrow> string" where
  "str_exn IndexError = ''IndexError''"
| "str_exn KeyError = ''KeyError''"
| "str_exn ValueError = ''ValueError''"
| "str_exn OSError = ''OSError''"
| "str_exn (HTTPError status) = ''HTTPError''"
| "str_exn RequestException = ''RequestException''"
| "str_exn JSONDecodeError = ''JSONDecodeError''"
| "str_exn CryptoError = ''CryptoError''"
| "str_exn PlaywrightError = ''PlaywrightError''"

text \<open>
  \<^verbatim>\<open>try: ... except Exception as e: print(f'...: {e}'); return False\<close> of the two notifier
  functions: the handler prints the text \<open>label\<close> followed by the exception, then returns
  \<^verbatim>\<open>False\<close>. The texts of the source are Chinese; the model writes them in ASCII.
\<close>

definition except_false :: "string \<Rightarrow> (exn + bool) \<times> action list \<Rightarrow> (exn + bool) \<times> action list" where
  "except_false label m =
     (case m of
        (Inl e, acts) \<Rightarrow> (Inr False, acts @ [Print (label @ str_exn e)])
      | (Inr b, acts) \<Rightarrow> (Inr b, acts))"

section \<open>Telegram notifier\<close>

definition message_url :: "string \<Rightarrow> string" where
  "message_url bot_token = ''https://api.telegram.org/bot'' @ bot_token @ ''/sendMessage''"

definition photo_url :: "string \<Rightarrow> string" where
  "photo_url bot_token = ''https://api.telegram.org/bot'' @ bot_token @ ''/sendPhoto''"

definition send_telegram_message :: "world \<Rightarrow> string \<Rightarrow> string \<Rightarrow> string \<Rightarrow> (exn + bool) \<times> action list" where
  "send_telegram_message w bot_token chat_id message =
     except_false ''Telegram message failed: ''
       (bind (send w (PostJson (message_url bot_token) chat_id message))
          (\<lambda>(status, body). bind (pure (raise_for_status status))
          (\<lambda>_. pure (Inr True))))"

definition send_telegram_photo :: "world \<Rightarrow> string \<Rightarrow> string \<Rightarrow> string \<Rightarrow> string \<Rightarrow> (exn + bool) \<times> action list" where
  "send_telegram_photo w bot_token chat_id photo_path caption =
     except_false ''Telegram photo failed: ''
       (bind (open_file w photo_path)
          (\<lambda>_. bind (send w (PostPhoto (photo_url bot_token) chat_id caption photo_path))
          (\<lambda>(status, body). bind (pure (raise_for_status status))
          (\<lambda>_. pure (Inr True)))))"

section \<open>GitHub secret publisher\<close>

definition key_url :: "string \<Rightarrow> string \<Rightarrow> string" where
  "key_url owner repo =
     ''https://api.github.com/repos/'' @ owner @ ''/'' @ repo @ ''/actions/secrets/public-key''"

definition update_url :: "string \<Rightarrow> string \<Rightarrow> string \<Rightarrow> string" where
  "update_url owner repo secret_name =
     ''https://api.github.com/repos/'' @ owner @ ''/'' @ repo @ ''/actions/secrets/'' @ secret_name"

definition update_github_secret ::
  "world \<Rightarrow> string \<Rightarrow> string \<Rightarrow> string \<Rightarrow> string \<Rightarrow> string \<Rightarrow> (exn + unit) \<times> action list" where
  "update_github_secret w token owner repo secret_name secret_value =
     bind (send w (Get (key_url owner repo) token))
       (\<lambda>(status, body). bind (pure (raise_for_status status))
       (\<lambda>_. bind (pure (json body))
       (\<lambda>key_data. bind (pure (getitem key_data ''key''))
       (\<lambda>key. bind (pure (seal_of w key secret_value))
       (\<lambda>encrypted_value. bind (pure (getitem key_data ''key_id''))
       (\<lambda>key_id. bind (send w (Put (update_url owner repo secret_name) token encrypted_value key_id))
       (\<lambda>(status', body'). pure (raise_for_status status'))))))))"

section \<open>The process: environment, exit and the main sequence\<close>

text \<open>
  \<^verbatim>\<open>sys.exit(n)\<close> raises \<^verbatim>\<open>SystemExit\<close>, which is not an \<^verbatim>\<open>Exception\<close>: an
  \<^verbatim>\<open>except Exception\<close> clause lets it pass. What stops \<^verbatim>\<open>main\<close> is one or the other.
  The interpreter exits with 0 when \<^verbatim>\<open>main\<close> returns, with \<open>n\<close> after \<^verbatim>\<open>sys.exit(n)\<close>
  and with 1 when an exception reaches the top.
\<close>

datatype stop = SystemExit int | Exception exn

record environ =
  ZEABUR_COOKIE :: "string option"
  REPO_TOKEN :: "string option"
  GITHUB_REPOSITORY :: "string option"
  TG_BOT_TOKEN :: "string option"
  TG_CHAT_ID :: "string option"

definition SCREENSHOT_PATH :: string where
  "SCREENSHOT_PATH = ''/tmp/zeabur_dashboard.png''"

text \<open>Truth value of \<^verbatim>\<open>os.environ.get(k)\<close>: set and not empty.\<close>

definition truthy :: "string option \<Rightarrow> bool" where
  "truthy v = (case v of None \<Rightarrow> False | Some s \<Rightarrow> s \<noteq> [])"

definition get_default :: "string option \<Rightarrow> string \<Rightarrow> string" where
  "get_default v d = (case v of None \<Rightarrow> d | Some s \<Rightarrow> s)"

definition exc :: "(exn + 'a) \<times> action list \<Rightarrow> (stop + 'a) \<times> action list" where
  "exc m = (case m of (Inl e, acts) \<Rightarrow> (Inl (Exception e), acts) | (Inr x, acts) \<Rightarrow> (Inr x, acts))"

definition sys_exit :: "int \<Rightarrow> (stop + 'a) \<times> action list" where
  "sys_exit n = (Inl (SystemExit n), [])"

definition exit_code :: "stop + unit \<Rightarrow> int" where
  "exit_code r = (case r of Inr _ \<Rightarrow> 0 | Inl (SystemExit n) \<Rightarrow> n | Inl (Exception e) \<Rightarrow> 1)"

text \<open>\<^verbatim>\<open>a, b = xs\<close>: \<^verbatim>\<open>ValueError\<close> unless there are exactly two items.\<close>

definition unpack2 :: "'a list \<Rightarrow> exn + 'a \<times> 'a" where
  "unpack2 xs = (case xs of [a, b] \<Rightarrow> Inr (a, b) | _ \<Rightarrow> Inl ValueError)"

text \<open>The browser calls of \<^verbatim>\<open>main\<close>. A Playwright call either succeeds or raises.\<close>

definition launch :: "world \<Rightarrow> (exn + unit) \<times> action list" where
  "launch w = (if launch_ok w then Inr () else Inl PlaywrightError, [Launch])"

text \<open>Line 157: \<^verbatim>\<open>login_with_cookie(context, cookie_string)\<close> on the fresh context, with the
  default \<^verbatim>\<open>max_retries = 2\<close>.\<close>

definition validate :: "world \<Rightarrow> string \<Rightarrow> (exn + nat \<times> bool) \<times> action list" where
  "validate w cookie_string =
     (case login_with_cookie (site_of w) new_context cookie_string 2 of
        Inl e \<Rightarrow> (Inl e, [])
      | Inr (r, ctx') \<Rightarrow> (Inr r, map Browser (trace ctx')))"

definition screenshot :: "world \<Rightarrow> nat \<Rightarrow> string \<Rightarrow> (exn + unit) \<times> action list" where
  "screenshot w page file_path =
     (if screenshot_ok w then Inr () else Inl PlaywrightError, [Screenshot page file_path])"

definition cookies :: "world \<Rightarrow> (exn + cookie list) \<times> action list" where
  "cookies w = (jar_of w, [ReadCookies])"

definition close_browser :: "world \<Rightarrow> (exn + unit) \<times> action list" where
  "close_browser w = (if close_ok w then Inr () else Inl PlaywrightError, [CloseBrowser])"

text \<open>
  The message texts of the source are Chinese with emoji; the model writes them in ASCII.
  No property below depends on the wording of a message.
\<close>

definition notifier_configured :: "environ \<Rightarrow> bool" where
  "notifier_configured env = (truthy (TG_BOT_TOKEN env) \<and> truthy (TG_CHAT_ID env))"

text \<open>Lines 160 to 164 and 206 to 210: tell the operator if possible, then \<^verbatim>\<open>sys.exit(1)\<close>.\<close>

definition report_failure :: "world \<Rightarrow> environ \<Rightarrow> string \<Rightarrow> (stop + unit) \<times> action list" where
  "report_failure w env error_msg =
     bind (if notifier_configured env
           then bind (exc (send_telegram_message w (get_default (TG_BOT_TOKEN env) [])
                             (get_default (TG_CHAT_ID env) []) error_msg))
                  (\<lambda>sent. pure (Inr ()))
           else pure (Inr ()))
       (\<lambda>_. sys_exit 1)"

text \<open>Lines 177 to 183: publish the refreshed cookie string; the result is the log lines.\<close>

definition refresh_secret :: "world \<Rightarrow> environ \<Rightarrow> cookie list \<Rightarrow> (stop + string list) \<times> action list" where
  "refresh_secret w env harvested =
     (let new_cookie_string = format_cookies harvested;
          repo = get_default (GITHUB_REPOSITORY env) [] in
      if truthy (REPO_TOKEN env) \<and> repo \<noteq> [] \<and> new_cookie_string \<noteq> []
      then bind (exc (pure (unpack2 (str_split (CHR ''/'') repo))))
             (\<lambda>(owner, repo_name).
                bind (exc (update_github_secret w (get_default (REPO_TOKEN env) []) owner repo_name
                             ''ZEABUR_COOKIE'' new_cookie_string))
             (\<lambda>_. pure (Inr [''visited: '' @ ZEABUR_DASHBOARD_URL, ''ZEABUR_COOKIE updated''])))
      else pure (Inr [''visited: '' @ ZEABUR_DASHBOARD_URL]))"

text \<open>Lines 186 to 203: the two notifier calls, one after the other.\<close>

definition success_message :: "string \<Rightarrow> string list \<Rightarrow> string" where
  "success_message time logs = ''Zeabur login ok at '' @ time @ '': '' @ str_join [CHR 0x0A] logs"

definition notify_success :: "world \<Rightarrow> environ \<Rightarrow> string list \<Rightarrow> (stop + unit) \<times> action list" where
  "notify_success w env logs =
     (if notifier_configured env
      then bind (exc (send_telegram_message w (get_default (TG_BOT_TOKEN env) [])
                        (get_default (TG_CHAT_ID env) [])
                        (success_message (clock w) logs)))
             (\<lambda>msg_sent.
                bind (exc (send_telegram_photo w (get_default (TG_BOT_TOKEN env) [])
                             (get_default (TG_CHAT_ID env) []) SCREENSHOT_PATH ''Zeabur dashboard''))
             (\<lambda>photo_sent. pure (Inr ())))
      else pure (Inr ()))"

text \<open>Lines 166 to 203: what the \<^verbatim>\<open>try\<close> block does once the login has succeeded.\<close>

definition after_login :: "world \<Rightarrow> environ \<Rightarrow> nat \<Rightarrow> (stop + unit) \<times> action list" where
  "after_login w env page =
     bind (exc (screenshot w page SCREENSHOT_PATH))
       (\<lambda>_. bind (exc (cookies w))
       (\<lambda>harvested. bind (refresh_secret w env harvested)
       (\<lambda>logs. notify_success w env logs)))"

text \<open>Lines 157 to 203: the \<^verbatim>\<open>try\<close> block.\<close>

definition main_try :: "world \<Rightarrow> environ \<Rightarrow> string \<Rightarrow> (stop + unit) \<times> action list" where
  "main_try w env cookie_string =
     bind (exc (validate w cookie_string))
       (\<lambda>(page, login_success).
          if \<not> login_success then report_failure w env ''cookie login failed; update ZEABUR_COOKIE''
          else after_login w env page)"

text \<open>\<^verbatim>\<open>except Exception as e\<close>: the handler runs on an exception, not on \<^verbatim>\<open>SystemExit\<close>.\<close>

definition except_exception ::
  "(stop + 'a) \<times> action list \<Rightarrow> (exn \<Rightarrow> (stop + 'a) \<times> action list) \<Rightarrow> (stop + 'a) \<times> action list" where
  "except_exception m handler =
     (case m of
        (Inl (Exception e), acts) \<Rightarrow> (case handler e of (r, acts') \<Rightarrow> (r, acts @ acts'))
      | (r, acts) \<Rightarrow> (r, acts))"

text \<open>\<^verbatim>\<open>finally\<close>: the clean-up always runs; when it raises, its exception replaces whatever
  was leaving the block.\<close>

definition try_finally :: "(stop + 'a) \<times> action list \<Rightarrow> (exn + unit) \<times> action list \<Rightarrow> (stop + 'a) \<times> action list" where
  "try_finally m cleanup =
     (case m of
        (r, acts) \<Rightarrow>
          (case cleanup of
             (Inl e, acts') \<Rightarrow> (Inl (Exception e), acts @ acts')
           | (Inr _, acts') \<Rightarrow> (r, acts @ acts')))"

text \<open>Lines 205 to 210: the handler of \<^verbatim>\<open>except Exception as e\<close>.\<close>

definition failure_handler :: "world \<Rightarrow> environ \<Rightarrow> exn \<Rightarrow> (stop + unit) \<times> action list" where
  "failure_handler w env e = report_failure w env (''run failed: '' @ str_exn e)"

definition main :: "world \<Rightarrow> environ \<Rightarrow> (stop + unit) \<times> action list" where
  "main w env =
     (if \<not> truthy (ZEABUR_COOKIE env) then sys_exit 1
      else bind (exc (launch w))
             (\<lambda>_. try_finally
                     (except_exception (main_try w env (get_default (ZEABUR_COOKIE env) []))
                        (failure_handler w env))
                     (close_browser w)))"

section \<open>Predicates and values used to state the properties\<close>

subsection \<open>Cookies\<close>

text \<open>
  \<open>stripped s\<close>: \<open>s\<close> has no whitespace at either end. \<open>record_of seg\<close>: the record
  \<^verbatim>\<open>parse_cookies\<close> makes of a piece that has an equals sign. \<open>in_target c\<close>: the test of
  \<^verbatim>\<open>format_cookies\<close>. \<open>plain c\<close>: name and value survive the text format. \<open>retarget c\<close>:
  \<open>c\<close> with the domain and path \<^verbatim>\<open>parse_cookies\<close> gives.
\<close>

definition stripped :: "string \<Rightarrow> bool" where
  "stripped s = (s = [] \<or> (\<not> isspace (hd s) \<and> \<not> isspace (last s)))"

definition has_eq :: "string \<Rightarrow> bool" where
  "has_eq seg = (CHR ''='' \<in> set seg)"

definition record_of :: "string \<Rightarrow> cookie" where
  "record_of seg =
     \<lparr>name = str_strip (takeWhile (\<lambda>x. x \<noteq> CHR ''='') (str_strip seg)),
      value = str_strip (tl (dropWhile (\<lambda>x. x \<noteq> CHR ''='') (str_strip seg))),
      domain = Some ''.zeabur.com'', path = ''/''\<rparr>"

definition in_target :: "cookie \<Rightarrow> bool" where
  "in_target c = str_in ''zeabur.com'' (get_domain c)"

definition pair_text :: "cookie \<Rightarrow> string" where
  "pair_text c = name c @ ''='' @ value c"

definition name_value :: "cookie \<Rightarrow> string \<times> string" where
  "name_value c = (name c, value c)"

definition plain :: "cookie \<Rightarrow> bool" where
  "plain c = (CHR '';'' \<notin> set (name c) \<and> CHR ''='' \<notin> set (name c) \<and> stripped (name c) \<and>
              CHR '';'' \<notin> set (value c) \<and> stripped (value c))"

definition retarget :: "cookie \<Rightarrow> cookie" where
  "retarget c = \<lparr>name = name c, value = value c, domain = Some ''.zeabur.com'', path = ''/''\<rparr>"

definition c_a :: cookie where
  "c_a = \<lparr>name = ''a'', value = ''1'', domain = Some ''.zeabur.com'', path = ''/''\<rparr>"

definition c_b :: cookie where
  "c_b = \<lparr>name = ''sid'', value = ''x=y z'', domain = Some ''dash.zeabur.com'', path = ''/p''\<rparr>"

definition c_other :: cookie where
  "c_other = \<lparr>name = ''t'', value = ''9'', domain = Some ''.example.org'', path = ''/''\<rparr>"

definition c_semi :: cookie where
  "c_semi = \<lparr>name = ''a'', value = ''x;y'', domain = Some ''.zeabur.com'', path = ''/''\<rparr>"

subsection \<open>Reading a trace\<close>

text \<open>An attempt on page \<open>p\<close> fails when the site sends it to a URL containing
  \<^verbatim>\<open>/login\<close> or the navigation raises.\<close>

definition failed :: "(nat \<Rightarrow> nav) \<Rightarrow> nat \<Rightarrow> bool" where
  "failed site p = (case site p of Landed url \<Rightarrow> str_in ''/login'' url | NavError \<Rightarrow> True)"

text \<open>\<open>live ps es\<close>: the pages open after the events \<open>es\<close>, when \<open>ps\<close> were open before.
  \<open>single_page ps es\<close>: no page is opened while another one is open.\<close>

fun live :: "nat list \<Rightarrow> event list \<Rightarrow> nat list" where
  "live ps [] = ps"
| "live ps (NewPage p # es) = live (p # ps) es"
| "live ps (ClosePage p # es) = live (removeAll p ps) es"
| "live ps (e # es) = live ps es"

fun single_page :: "nat list \<Rightarrow> event list \<Rightarrow> bool" where
  "single_page ps [] = True"
| "single_page ps (NewPage p # es) = (ps = [] \<and> single_page [p] es)"
| "single_page ps (ClosePage p # es) = single_page (removeAll p ps) es"
| "single_page ps (e # es) = single_page ps es"

text \<open>The pages navigated and the durations slept, in order; \<open>sleeps_between\<close>: every
  sleep has a navigation before it (\<open>seen\<close>) and one after it.\<close>

fun navigated :: "event list \<Rightarrow> nat list" where
  "navigated [] = []"
| "navigated (Goto p url # es) = p # navigated es"
| "navigated (e # es) = navigated es"

fun sleeps :: "event list \<Rightarrow> int list" where
  "sleeps [] = []"
| "sleeps (Sleep n # es) = n # sleeps es"
| "sleeps (e # es) = sleeps es"

fun sleeps_between :: "bool \<Rightarrow> event list \<Rightarrow> bool" where
  "sleeps_between seen [] = True"
| "sleeps_between seen (Goto p url # es) = sleeps_between True es"
| "sleeps_between seen (Sleep n # es) = (seen \<and> navigated es \<noteq> [] \<and> sleeps_between seen es)"
| "sleeps_between seen (e # es) = sleeps_between seen es"

text \<open>
  \<open>timeline es\<close>: the navigations and the sleeps of \<open>es\<close>, in the order in which they
  happen. \<open>schedule p n k\<close>: the \<open>k\<close> attempts with the numbers \<open>n\<close>, \<open>n + 1\<close>, ...
  (the first attempt of a run has the number 0), attempt \<open>i\<close> navigating page \<open>p + i\<close>;
  each attempt but attempt 0 comes directly after a sleep of 5 times its number seconds,
  and nothing else is slept.
\<close>

fun timeline :: "event list \<Rightarrow> event list" where
  "timeline [] = []"
| "timeline (Goto p url # es) = Goto p url # timeline es"
| "timeline (Sleep n # es) = Sleep n # timeline es"
| "timeline (e # es) = timeline es"

fun schedule :: "nat \<Rightarrow> nat \<Rightarrow> nat \<Rightarrow> event list" where
  "schedule p n 0 = []"
| "schedule p n (Suc k) =
     (if n = 0 then [] else [Sleep (5 * int n)])
       @ [Goto (p + n) ZEABUR_DASHBOARD_URL]
       @ schedule p (Suc n) k"

text \<open>The events a computation added to the trace.\<close>

definition emitted :: "browser_context \<Rightarrow> browser_context \<Rightarrow> event list" where
  "emitted before after = drop (length (trace before)) (trace after)"

text \<open>
  The closed form of the loop: \<open>k\<close> failed rounds from attempt \<open>a\<close> and page \<open>p\<close> on,
  where \<open>k\<close> is the number of attempts that fail before the first that does not, among
  the \<open>n\<close> attempts left; then either the successful attempt or the page opened after
  the loop.
\<close>

fun failed_rounds :: "int \<Rightarrow> int \<Rightarrow> nat \<Rightarrow> nat \<Rightarrow> event list" where
  "failed_rounds m a p 0 = []"
| "failed_rounds m a p (Suc k) =
     [NewPage p, Goto p ZEABUR_DASHBOARD_URL, ClosePage p]
       @ (if a < m then [Sleep (5 * (a + 1))] else [])
       @ failed_rounds m (a + 1) (Suc p) k"

fun leading_failures :: "(nat \<Rightarrow> nav) \<Rightarrow> nat \<Rightarrow> nat \<Rightarrow> nat" where
  "leading_failures site p 0 = 0"
| "leading_failures site p (Suc n) =
     (if failed site p then Suc (leading_failures site (Suc p) n) else 0)"

definition login_outcome ::
  "(nat \<Rightarrow> nav) \<Rightarrow> int \<Rightarrow> int \<Rightarrow> browser_context \<Rightarrow> (nat \<times> bool) \<times> browser_context" where
  "login_outcome site m a ctx =
     (let n = nat (m + 1 - a); p = next_page ctx; k = leading_failures site p n in
      if k < n
      then ((p + k, True),
            ctx\<lparr>next_page := Suc (p + k),
                trace := trace ctx @ failed_rounds m a p k
                           @ [NewPage (p + k), Goto (p + k) ZEABUR_DASHBOARD_URL]\<rparr>)
      else ((p + n, False),
            ctx\<lparr>next_page := Suc (p + n),
                trace := trace ctx @ failed_rounds m a p n @ [NewPage (p + n)]\<rparr>))"

definition final_events :: "nat \<Rightarrow> bool \<Rightarrow> event list" where
  "final_events page ok =
     (if ok then [NewPage page, Goto page ZEABUR_DASHBOARD_URL] else [NewPage page])"

text \<open>Sites for the examples: always logged in; redirected to the login page twice, then
  logged in; never logged in.\<close>

definition site_ok :: "nat \<Rightarrow> nav" where
  "site_ok p = Landed ''https://zeabur.com/projects''"

definition site_down :: "nat \<Rightarrow> nav" where
  "site_down p = (if even p then NavError else Landed ''https://zeabur.com/login'')"

definition site_rra :: "nat \<Rightarrow> nav" where
  "site_rra p =
     (if p < 2 then Landed ''https://zeabur.com/login?next=projects''
      else Landed ''https://zeabur.com/projects'')"

subsection \<open>Requests and worlds\<close>

text \<open>
  \<open>accepted w r\<close>: the request gets a response and \<^verbatim>\<open>raise_for_status\<close> lets it pass.
  \<open>failure_of w r\<close>: the exception that a request which is not accepted raises, in
  \<^verbatim>\<open>requests\<close> itself or in \<^verbatim>\<open>raise_for_status\<close>.
  \<open>is_notification r\<close>: \<open>r\<close> is one of the notifier's requests. \<open>published\<close>: the
  secret is published if it is to be. \<open>with_notifier\<close>: a world with other answers to the
  notifier's requests and other readable files. \<open>publish_outcome\<close>: the closed form of
  \<^verbatim>\<open>update_github_secret\<close>.
\<close>

definition accepted :: "world \<Rightarrow> request \<Rightarrow> bool" where
  "accepted w r =
     (case reply_of w r of
        Response status body \<Rightarrow> \<not> (400 \<le> status \<and> status < 600)
      | NetworkError \<Rightarrow> False)"

definition failure_of :: "world \<Rightarrow> request \<Rightarrow> exn" where
  "failure_of w r =
     (case reply_of w r of
        Response status body \<Rightarrow> HTTPError status
      | NetworkError \<Rightarrow> RequestException)"

definition is_notification :: "request \<Rightarrow> bool" where
  "is_notification r =
     (case r of PostJson u c m \<Rightarrow> True | PostPhoto u c t f \<Rightarrow> True | Get u t \<Rightarrow> False | Put u t v k \<Rightarrow> False)"

definition published :: "world \<Rightarrow> environ \<Rightarrow> cookie list \<Rightarrow> bool" where
  "published w env harvested =
     (truthy (REPO_TOKEN env) \<and> get_default (GITHUB_REPOSITORY env) [] \<noteq> [] \<and>
      format_cookies harvested \<noteq> [] \<longrightarrow>
        (\<exists>owner repo_name.
           str_split (CHR ''/'') (get_default (GITHUB_REPOSITORY env) []) = [owner, repo_name] \<and>
           fst (update_github_secret w (get_default (REPO_TOKEN env) []) owner repo_name
                  ''ZEABUR_COOKIE'' (format_cookies harvested)) = Inr ()))"

definition with_notifier :: "world \<Rightarrow> (request \<Rightarrow> http_reply) \<Rightarrow> (string \<Rightarrow> bool) \<Rightarrow> world" where
  "with_notifier w answers can_read =
     w\<lparr>reply_of := (\<lambda>r. if is_notification r then answers r else reply_of w r),
       readable := can_read\<rparr>"

text \<open>
  The examples. \<open>key_b64\<close> is the base64 text of a public key of 32 bytes (the byte 9
  followed by 31 zero bytes, the base point of the curve). The bytes of a sealed box are 48
  more than those of the value and are random; \<open>sealed_text v\<close> is base64 text of that many
  bytes, and the example world seals with it under \<open>key_b64\<close> and under no other key.
  \<open>key_answer\<close> is the body of an answer to the GET of the public key.
\<close>

definition key_b64 :: string where
  "key_b64 = ''CQAAAAAAAAAAAAAAAAAAAAAAAAAAAAAAAAAAAAAAAAA=''"

definition sealed_text :: "string \<Rightarrow> string" where
  "sealed_text v =
     (let n = 48 + length v; pad = 2 - (n + 2) mod 3 in
      replicate (4 * ((n + 2) div 3) - pad) (CHR ''A'') @ replicate pad (CHR ''=''))"

definition key_answer :: "(string \<times> string) list" where
  "key_answer = [(''key_id'', ''568250167242549743''), (''key'', key_b64)]"

definition w_ok :: world where
  "w_ok = \<lparr>site_of = (\<lambda>p. Landed ''https://zeabur.com/projects''), launch_ok = True, screenshot_ok = True,
         jar_of = Inr [\<lparr>name = ''sid'', value = ''9'', domain = Some ''.zeabur.com'', path = ''/''\<rparr>],
         reply_of = (\<lambda>r. Response 200 (Some key_answer)),
         seal_of = (\<lambda>k v. if k = key_b64 then Inr (sealed_text v) else Inl CryptoError),
         readable = (\<lambda>p. True), clock = ''2026'', close_ok = True\<rparr>"

definition env_all :: environ where
  "env_all = \<lparr>ZEABUR_COOKIE = Some ''sid=1'', REPO_TOKEN = Some ''tok'', GITHUB_REPOSITORY = Some ''me/repo'',
           TG_BOT_TOKEN = Some ''bot'', TG_CHAT_ID = Some ''42''\<rparr>"

definition reply_304 :: "request \<Rightarrow> http_reply" where
  "reply_304 r =
     (case r of
        Get u t \<Rightarrow> Response 200 (Some key_answer)
      | Put u t v k \<Rightarrow> Response 304 None
      | PostJson u c m \<Rightarrow> Response 304 None
      | PostPhoto u c t f \<Rightarrow> Response 304 None)"

definition reply_denied :: "request \<Rightarrow> http_reply" where
  "reply_denied r = (case r of PostJson u c m \<Rightarrow> NetworkError | _ \<Rightarrow> Response 403 None)"

definition reply_no_json :: "request \<Rightarrow> http_reply" where
  "reply_no_json r = (case r of Get u t \<Rightarrow> Response 200 None | _ \<Rightarrow> Response 200 (Some key_answer))"

definition publish_outcome ::
  "world \<Rightarrow> string \<Rightarrow> string \<Rightarrow> string \<Rightarrow> string \<Rightarrow> string \<Rightarrow> (exn + unit) \<times> action list" where
  "publish_outcome w token owner repo secret_name secret_value =
     (case reply_of w (Get (key_url owner repo) token) of
        NetworkError \<Rightarrow> (Inl RequestException, [Net (Get (key_url owner repo) token)])
      | Response status body \<Rightarrow>
          if 400 \<le> status \<and> status < 600
          then (Inl (HTTPError status), [Net (Get (key_url owner repo) token)])
          else
           (case body of
              None \<Rightarrow> (Inl JSONDecodeError, [Net (Get (key_url owner repo) token)])
            | Some key_data \<Rightarrow>
               (case map_of key_data ''key'' of
                  None \<Rightarrow> (Inl KeyError, [Net (Get (key_url owner repo) token)])
                | Some key \<Rightarrow>
                   (case seal_of w key secret_value of
                      Inl e \<Rightarrow> (Inl e, [Net (Get (key_url owner repo) token)])
                    | Inr encrypted_value \<Rightarrow>
                       (case map_of key_data ''key_id'' of
                          None \<Rightarrow> (Inl KeyError, [Net (Get (key_url owner repo) token)])
                        | Some key_id \<Rightarrow>
                           (case reply_of w (Put (update_url owner repo secret_name) token encrypted_value key_id) of
                              NetworkError \<Rightarrow>
                                (Inl RequestException,
                                 [Net (Get (key_url owner repo) token),
                                  Net (Put (update_url owner repo secret_name) token encrypted_value key_id)])
                            | Response status' body' \<Rightarrow>
                                (if 400 \<le> status' \<and> status' < 600 then Inl (HTTPError status') else Inr (),
                                 [Net (Get (key_url owner repo) token),
                                  Net (Put (update_url owner repo secret_name) token encrypted_value key_id)])))))))"

definition reply_put_rejected :: "request \<Rightarrow> http_reply" where
  "reply_put_rejected r =
     (case r of
        Get u t \<Rightarrow> Response 200 (Some key_answer)
      | Put u t v k \<Rightarrow> Response 422 None
      | PostJson u c m \<Rightarrow> Response 200 None
      | PostPhoto u c t f \<Rightarrow> Response 200 None)"

section \<open>Properties of the string primitives and the cookie codec\<close>

lemma str_strip_stripped: "stripped s \<Longrightarrow> str_strip s = s"
proof (cases "s = []")
  case True
  then show ?thesis by (simp add: str_strip_def)
next
  case False
  assume "stripped s"
  with False have h: "\<not> isspace (hd s)" and l: "\<not> isspace (last s)"
    by (simp_all add: stripped_def)
  from False h have d: "dropWhile isspace s = s"
    by (cases s) simp_all
  from False l have "dropWhile isspace (rev s) = rev s"
    by (cases s rule: rev_cases) simp_all
  with d show ?thesis by (simp add: str_strip_def)
qed

lemma set_str_strip: "set (str_strip s) \<subseteq> set s"
  by (auto simp: str_strip_def dest!: set_dropWhileD)

lemma str_strip_prefix: "\<exists>ys. dropWhile isspace s = str_strip s @ ys"
proof -
  let ?d = "dropWhile isspace s"
  have "rev ?d = takeWhile isspace (rev ?d) @ dropWhile isspace (rev ?d)" by simp
  then have "rev (rev ?d) = rev (takeWhile isspace (rev ?d) @ dropWhile isspace (rev ?d))"
    by simp
  then have "?d = rev (dropWhile isspace (rev ?d)) @ rev (takeWhile isspace (rev ?d))"
    by (simp only: rev_rev_ident rev_append)
  then show ?thesis by (auto simp: str_strip_def)
qed

lemma stripped_str_strip: "stripped (str_strip s)"
proof (cases "str_strip s = []")
  case True
  then show ?thesis by (simp add: stripped_def)
next
  case False
  obtain ys where ys: "dropWhile isspace s = str_strip s @ ys"
    using str_strip_prefix by blast
  with False have "hd (str_strip s) = hd (dropWhile isspace s)" by simp
  moreover from ys False have "dropWhile isspace s \<noteq> []" by auto
  ultimately have h: "\<not> isspace (hd (str_strip s))"
    using hd_dropWhile[of isspace s] by simp
  from False have ne: "dropWhile isspace (rev (dropWhile isspace s)) \<noteq> []"
    by (simp add: str_strip_def)
  have "last (str_strip s) = hd (dropWhile isspace (rev (dropWhile isspace s)))"
    using ne by (simp add: str_strip_def last_rev)
  with ne have l: "\<not> isspace (last (str_strip s))"
    using hd_dropWhile[of isspace "rev (dropWhile isspace s)"] by simp
  from h l show ?thesis by (simp add: stripped_def)
qed

lemma str_strip_space_Cons: "isspace c \<Longrightarrow> str_strip (c # s) = str_strip s"
  by (simp add: str_strip_def)

lemma in_set_str_strip: "\<not> isspace c \<Longrightarrow> (c \<in> set (str_strip s)) = (c \<in> set s)"
proof
  assume "c \<in> set (str_strip s)"
  then show "c \<in> set s" using set_str_strip by blast
next
  assume ns: "\<not> isspace c" "c \<in> set s"
  have a: "c \<in> set xs \<Longrightarrow> c \<in> set (dropWhile isspace xs)" for xs
    using ns(1) by (induction xs) auto
  from ns(2) show "c \<in> set (str_strip s)"
    by (simp add: str_strip_def a)
qed

lemma str_split_nonempty: "str_split c s \<noteq> []"
  by (induction s) (auto split: list.splits)

lemma str_split_no_sep: "c \<notin> set s \<Longrightarrow> str_split c s = [s]"
  by (induction s) auto

lemma str_split_append_sep:
  "c \<notin> set x \<Longrightarrow> str_split c (x @ c # rest) = x # str_split c rest"
  by (induction x) auto

lemma str_split_pieces: "seg \<in> set (str_split c s) \<Longrightarrow> c \<notin> set seg"
proof (induction s arbitrary: seg)
  case Nil
  then show ?case by simp
next
  case (Cons x xs)
  show ?case
  proof (cases "x = c")
    case True
    with Cons show ?thesis by auto
  next
    case False
    obtain y ys where sp: "str_split c xs = y # ys"
      using str_split_nonempty[of c xs] by (cases "str_split c xs") auto
    with Cons.prems False have "seg = x # y \<or> seg \<in> set ys" by simp
    then show ?thesis
    proof
      assume "seg = x # y"
      moreover have "c \<notin> set y" using Cons.IH[of y] sp by simp
      ultimately show ?thesis using False by auto
    next
      assume "seg \<in> set ys"
      then show ?thesis using Cons.IH[of seg] sp by simp
    qed
  qed
qed

lemma str_split_join:
  "\<forall>y \<in> set (x # xs). CHR '';'' \<notin> set y \<Longrightarrow>
   str_split (CHR '';'') (str_join ''; '' (x # xs)) = x # map (\<lambda>y. CHR '' '' # y) xs"
proof (induction xs arbitrary: x)
  case Nil
  then show ?case by (simp add: str_split_no_sep)
next
  case (Cons y ys)
  have j: "str_join ''; '' (x # y # ys) = x @ CHR '';'' # (CHR '' '' # str_join ''; '' (y # ys))"
    by simp
  have nx: "CHR '';'' \<notin> set x" using Cons.prems by simp
  have "str_split (CHR '';'') (str_join ''; '' (x # y # ys))
           = x # str_split (CHR '';'') (CHR '' '' # str_join ''; '' (y # ys))"
    unfolding j by (rule str_split_append_sep[OF nx])
  also have "str_split (CHR '';'') (CHR '' '' # str_join ''; '' (y # ys))
           = (CHR '' '' # y) # map (\<lambda>y. CHR '' '' # y) ys"
    using Cons.IH[of y] Cons.prems by simp
  finally show ?case by simp
qed

lemma str_split1_none: "c \<notin> set s \<Longrightarrow> str_split1 c s = [s]"
  by (simp add: str_split1_def)

lemma str_split1_pair: "c \<notin> set n \<Longrightarrow> str_split1 c (n @ c # v) = [n, v]"
proof -
  assume a: "c \<notin> set n"
  then have "takeWhile (\<lambda>x. x \<noteq> c) (n @ c # v) = n"
    by (induction n) auto
  moreover from a have "dropWhile (\<lambda>x. x \<noteq> c) (n @ c # v) = c # v"
    by (induction n) auto
  ultimately show ?thesis by (simp add: str_split1_def)
qed

lemma length_str_split1: "length (str_split1 c s) = (if c \<in> set s then 2 else 1)"
  by (simp add: str_split1_def)

lemma not_isspace_eq: "\<not> isspace (CHR ''='')"
  by (simp add: isspace_def)

lemma not_isspace_semi: "\<not> isspace (CHR '';'')"
  by (simp add: isspace_def)

lemma isspace_blank: "isspace (CHR '' '')"
  by (simp add: isspace_def)

lemma parse_loop_filter:
  "parse_loop segs acc = Inr (acc @ map record_of (filter has_eq segs))"
proof (induction segs arbitrary: acc)
  case Nil
  then show ?case by simp
next
  case (Cons seg segs)
  show ?case
  proof (cases "has_eq seg")
    case True
    then have "CHR ''='' \<in> set (str_strip seg)"
      by (simp add: has_eq_def in_set_str_strip not_isspace_eq)
    then show ?thesis
      using True Cons.IH by (simp add: str_split1_def record_of_def py_index_def)
  next
    case False
    then have "CHR ''='' \<notin> set (str_strip seg)"
      by (simp add: has_eq_def in_set_str_strip not_isspace_eq)
    then show ?thesis
      using False Cons.IH by (simp add: str_split1_def)
  qed
qed

lemma parse_cookies_filter:
  "parse_cookies s = Inr (map record_of (filter has_eq (str_split (CHR '';'') s)))"
  by (simp add: parse_cookies_def parse_loop_filter)

lemma takeWhile_upto_sep: "c \<notin> set n \<Longrightarrow> takeWhile (\<lambda>x. x \<noteq> c) (n @ c # v) = n"
  by (induction n) auto

lemma dropWhile_upto_sep: "c \<notin> set n \<Longrightarrow> dropWhile (\<lambda>x. x \<noteq> c) (n @ c # v) = c # v"
  by (induction n) auto

lemma set_tl_subset: "x \<in> set (tl xs) \<Longrightarrow> x \<in> set xs"
  by (cases xs) auto

lemma format_cookies_alt:
  "format_cookies cs = str_join ''; '' (map pair_text (filter in_target cs))"
  by (simp add: format_cookies_def in_target_def[abs_def] pair_text_def[abs_def])

lemma pair_text_no_semi: "plain c \<Longrightarrow> CHR '';'' \<notin> set (pair_text c)"
  by (simp add: plain_def pair_text_def)

lemma pair_text_has_eq: "has_eq (pair_text c)" "has_eq (CHR '' '' # pair_text c)"
  by (simp_all add: has_eq_def pair_text_def)

lemma stripped_pair_text:
  assumes "plain c"
  shows "stripped (pair_text c)"
proof -
  have n: "name c = [] \<or> \<not> isspace (hd (name c))"
    and v: "value c = [] \<or> \<not> isspace (last (value c))"
    using assms by (auto simp: plain_def stripped_def)
  have "\<not> isspace (hd (pair_text c))"
    using n by (cases "name c") (auto simp: pair_text_def not_isspace_eq)
  moreover have "\<not> isspace (last (pair_text c))"
    using v by (cases "value c = []") (auto simp: pair_text_def not_isspace_eq)
  ultimately show ?thesis by (simp add: stripped_def)
qed

lemma record_of_pair_text:
  assumes "plain c"
  shows "record_of (pair_text c) = retarget c"
proof -
  have s: "str_strip (pair_text c) = pair_text c"
    using assms by (simp add: stripped_pair_text str_strip_stripped)
  have ne: "CHR ''='' \<notin> set (name c)" using assms by (simp add: plain_def)
  have pt: "pair_text c = name c @ CHR ''='' # value c" by (simp add: pair_text_def)
  have t: "takeWhile (\<lambda>x. x \<noteq> CHR ''='') (pair_text c) = name c"
    unfolding pt using ne by (rule takeWhile_upto_sep)
  have d: "dropWhile (\<lambda>x. x \<noteq> CHR ''='') (pair_text c) = CHR ''='' # value c"
    unfolding pt using ne by (rule dropWhile_upto_sep)
  have "str_strip (name c) = name c" "str_strip (value c) = value c"
    using assms by (simp_all add: plain_def str_strip_stripped)
  then show ?thesis by (simp add: record_of_def s t d retarget_def)
qed

lemma record_of_blank_pair_text:
  "plain c \<Longrightarrow> record_of (CHR '' '' # pair_text c) = retarget c"
  using record_of_pair_text[of c]
  by (simp add: record_of_def str_strip_space_Cons isspace_blank)

lemma parse_join_plain:
  assumes "\<forall>c \<in> set cs. plain c"
  shows "parse_cookies (str_join ''; '' (map pair_text cs)) = Inr (map retarget cs)"
proof (cases cs)
  case Nil
  then show ?thesis by (simp add: parse_cookies_filter has_eq_def)
next
  case (Cons c rest)
  have "\<forall>y \<in> set (pair_text c # map pair_text rest). CHR '';'' \<notin> set y"
    using assms Cons by (auto simp: pair_text_no_semi)
  then have sp: "str_split (CHR '';'') (str_join ''; '' (pair_text c # map pair_text rest))
      = pair_text c # map (\<lambda>y. CHR '' '' # y) (map pair_text rest)"
    by (rule str_split_join)
  have f: "filter has_eq (map (\<lambda>y. CHR '' '' # y) (map pair_text rest))
      = map (\<lambda>y. CHR '' '' # y) (map pair_text rest)"
    by (induction rest) (simp_all add: pair_text_has_eq)
  show ?thesis
    using assms Cons
    by (simp add: parse_cookies_filter sp pair_text_has_eq f record_of_pair_text
        record_of_blank_pair_text)
qed

lemma parse_format_plain:
  "\<forall>c \<in> set cs. in_target c \<longrightarrow> plain c \<Longrightarrow>
   parse_cookies (format_cookies cs) = Inr (map retarget (filter in_target cs))"
  by (simp add: format_cookies_alt parse_join_plain)

lemma plain_record_of:
  assumes "CHR '';'' \<notin> set seg"
  shows "plain (record_of seg)"
proof -
  let ?s = "str_strip seg"
  have a: "set ?s \<subseteq> set seg" by (rule set_str_strip)
  have n: "set (str_strip (takeWhile (\<lambda>x. x \<noteq> CHR ''='') ?s)) \<subseteq> set (takeWhile (\<lambda>x. x \<noteq> CHR ''='') ?s)"
    by (rule set_str_strip)
  have n2: "set (takeWhile (\<lambda>x. x \<noteq> CHR ''='') ?s) \<subseteq> set ?s"
    by (auto dest: set_takeWhileD)
  have n3: "CHR ''='' \<notin> set (takeWhile (\<lambda>x. x \<noteq> CHR ''='') ?s)"
    by (auto dest: set_takeWhileD)
  have v: "set (str_strip (tl (dropWhile (\<lambda>x. x \<noteq> CHR ''='') ?s))) \<subseteq> set (tl (dropWhile (\<lambda>x. x \<noteq> CHR ''='') ?s))"
    by (rule set_str_strip)
  have v2: "set (tl (dropWhile (\<lambda>x. x \<noteq> CHR ''='') ?s)) \<subseteq> set ?s"
    by (auto dest: set_tl_subset set_dropWhileD)
  have "CHR '';'' \<notin> set (name (record_of seg))"
    using assms a n n2 by (auto simp: record_of_def)
  moreover have "CHR ''='' \<notin> set (name (record_of seg))"
    using n n3 by (auto simp: record_of_def)
  moreover have "CHR '';'' \<notin> set (value (record_of seg))"
    using assms a v v2 by (auto simp: record_of_def)
  ultimately show ?thesis
    by (simp add: plain_def) (simp add: record_of_def stripped_str_strip)
qed

lemma in_target_record_of: "in_target (record_of seg)"
  by (simp add: in_target_def get_domain_def record_of_def)

lemma retarget_record_of: "retarget (record_of seg) = record_of seg"
  by (simp add: retarget_def record_of_def)

lemma parse_cookies_plain:
  "parse_cookies s = Inr cs \<Longrightarrow> c \<in> set cs \<Longrightarrow> plain c \<and> in_target c \<and> retarget c = c"
  by (auto simp: parse_cookies_filter in_target_record_of retarget_record_of
      intro!: plain_record_of dest: str_split_pieces)

lemma parse_format_parse:
  assumes "parse_cookies s = Inr cs"
  shows "parse_cookies (format_cookies cs) = Inr cs"
proof -
  have p: "\<forall>c \<in> set cs. plain c \<and> in_target c \<and> retarget c = c"
    using parse_cookies_plain[OF assms] by blast
  then have "parse_cookies (format_cookies cs) = Inr (map retarget (filter in_target cs))"
    by (intro parse_format_plain) simp
  also from p have "filter in_target cs = cs" by simp
  also from p have "map retarget cs = cs" by (simp add: map_idI)
  finally show ?thesis .
qed

lemma str_split_append:
  "str_split c (a @ c # b) = str_split c a @ str_split c b"
proof (induction a)
  case Nil
  then show ?case by simp
next
  case (Cons x a)
  obtain y ys where sp: "str_split c a = y # ys"
    using str_split_nonempty[of c a] by (cases "str_split c a") auto
  with Cons show ?case by simp
qed

section \<open>Properties of the login loop\<close>

lemma login_loop_success:
  assumes "attempt \<le> m" "\<not> failed site (next_page ctx)"
  shows "login_loop site m attempt ctx =
    ((next_page ctx, True),
     ctx\<lparr>next_page := Suc (next_page ctx),
         trace := trace ctx @ [NewPage (next_page ctx), Goto (next_page ctx) ZEABUR_DASHBOARD_URL]\<rparr>)"
  using assms
  by (subst login_loop.simps)
     (auto simp: new_page_def goto_def failed_def split: nav.splits)

lemma login_loop_failure:
  assumes "attempt \<le> m" "failed site (next_page ctx)"
  shows "login_loop site m attempt ctx =
    login_loop site m (attempt + 1)
      (ctx\<lparr>next_page := Suc (next_page ctx),
           trace := trace ctx @ failed_rounds m attempt (next_page ctx) 1\<rparr>)"
  using assms
  by (subst login_loop.simps)
     (auto simp: new_page_def goto_def close_page_def backoff_def sleep_def failed_def
           split: nav.splits)

lemma login_loop_exhausted:
  assumes "m < attempt"
  shows "login_loop site m attempt ctx =
    ((next_page ctx, False),
     ctx\<lparr>next_page := Suc (next_page ctx), trace := trace ctx @ [NewPage (next_page ctx)]\<rparr>)"
  using assms
  by (subst login_loop.simps) (auto simp: new_page_def)

lemma failed_rounds_append:
  "failed_rounds m a p (j + k) = failed_rounds m a p j @ failed_rounds m (a + int j) (p + j) k"
  by (induction j arbitrary: a p) (auto simp: algebra_simps)

lemma login_loop_rounds:
  assumes "\<forall>i < k. failed site (next_page ctx + i)" "attempt + int k \<le> m + 1"
  shows "login_loop site m attempt ctx =
    login_loop site m (attempt + int k)
      (ctx\<lparr>next_page := next_page ctx + k,
           trace := trace ctx @ failed_rounds m attempt (next_page ctx) k\<rparr>)"
  using assms
proof (induction k arbitrary: attempt ctx)
  case 0
  then show ?case by simp
next
  case (Suc k)
  let ?c = "ctx\<lparr>next_page := Suc (next_page ctx),
           trace := trace ctx @ failed_rounds m attempt (next_page ctx) 1\<rparr>"
  have f0: "failed site (next_page ctx)" using Suc.prems(1) by force
  have le: "attempt \<le> m" using Suc.prems(2) by simp
  have step: "login_loop site m attempt ctx = login_loop site m (attempt + 1) ?c"
    by (rule login_loop_failure[OF le f0])
  have "\<forall>i < k. failed site (next_page ?c + i)"
    using Suc.prems(1) by (auto simp: less_Suc_eq_0_disj)
  moreover have "attempt + 1 + int k \<le> m + 1" using Suc.prems(2) by simp
  ultimately have "login_loop site m (attempt + 1) ?c =
    login_loop site m (attempt + 1 + int k)
      (?c\<lparr>next_page := next_page ?c + k,
           trace := trace ?c @ failed_rounds m (attempt + 1) (next_page ?c) k\<rparr>)"
    by (rule Suc.IH)
  with step show ?case by (simp add: algebra_simps)
qed

lemma leading_failures_le: "leading_failures site p n \<le> n"
  by (induction n arbitrary: p) auto

lemma leading_failures_failed:
  "i < leading_failures site p n \<Longrightarrow> failed site (p + i)"
proof (induction n arbitrary: p i)
  case 0
  then show ?case by simp
next
  case (Suc n)
  from Suc.prems have f: "failed site p" and l: "i < Suc (leading_failures site (Suc p) n)"
    by (auto split: if_splits)
  show ?case
  proof (cases i)
    case 0
    with f show ?thesis by simp
  next
    case (Suc j)
    with l have "j < leading_failures site (Suc p) n" by simp
    then have "failed site (Suc p + j)" by (rule Suc.IH)
    with Suc show ?thesis by simp
  qed
qed

lemma leading_failures_stop:
  "leading_failures site p n < n \<Longrightarrow> \<not> failed site (p + leading_failures site p n)"
proof (induction n arbitrary: p)
  case 0
  then show ?case by simp
next
  case (Suc n)
  show ?case
  proof (cases "failed site p")
    case False
    then show ?thesis by simp
  next
    case True
    with Suc.prems have "leading_failures site (Suc p) n < n" by simp
    then have "\<not> failed site (Suc p + leading_failures site (Suc p) n)" by (rule Suc.IH)
    with True show ?thesis by simp
  qed
qed

lemma leading_failures_all:
  "\<forall>i < n. failed site (p + i) \<Longrightarrow> leading_failures site p n = n"
proof (induction n arbitrary: p)
  case 0
  then show ?case by simp
next
  case (Suc n)
  have "failed site p" using Suc.prems by force
  moreover have "\<forall>i < n. failed site (Suc p + i)" using Suc.prems by auto
  ultimately show ?case using Suc.IH[of "Suc p"] by simp
qed

lemma login_loop_outcome: "login_loop site m a ctx = login_outcome site m a ctx"
proof (cases "a \<le> m")
  case False
  then have "nat (m + 1 - a) = 0" by simp
  with False show ?thesis
    by (simp add: login_outcome_def login_loop_exhausted Let_def)
next
  case True
  let ?n = "nat (m + 1 - a)"
  let ?p = "next_page ctx"
  let ?k = "leading_failures site ?p ?n"
  let ?c = "ctx\<lparr>next_page := ?p + ?k, trace := trace ctx @ failed_rounds m a ?p ?k\<rparr>"
  have n: "a + int ?n = m + 1" using True by simp
  have kn: "?k \<le> ?n" by (rule leading_failures_le)
  have fl: "\<forall>i < ?k. failed site (?p + i)" by (simp add: leading_failures_failed)
  have le: "a + int ?k \<le> m + 1" using kn n by linarith
  have rounds: "login_loop site m a ctx = login_loop site m (a + int ?k) ?c"
    by (rule login_loop_rounds[OF fl le])
  show ?thesis
  proof (cases "?k < ?n")
    case True
    then have "a + int ?k \<le> m" using n by linarith
    moreover have "\<not> failed site (next_page ?c)"
      using leading_failures_stop[OF True] by simp
    ultimately have "login_loop site m (a + int ?k) ?c =
      ((next_page ?c, True),
       ?c\<lparr>next_page := Suc (next_page ?c),
           trace := trace ?c @ [NewPage (next_page ?c), Goto (next_page ?c) ZEABUR_DASHBOARD_URL]\<rparr>)"
      by (rule login_loop_success)
    with rounds True show ?thesis
      by (simp add: login_outcome_def Let_def)
  next
    case False
    with kn have eq: "?k = ?n" by simp
    then have "m < a + int ?k" using n by linarith
    then have "login_loop site m (a + int ?k) ?c =
      ((next_page ?c, False),
       ?c\<lparr>next_page := Suc (next_page ?c), trace := trace ?c @ [NewPage (next_page ?c)]\<rparr>)"
      by (rule login_loop_exhausted)
    with rounds eq show ?thesis
      by (simp add: login_outcome_def Let_def)
  qed
qed

lemma live_failed_rounds: "live [] (failed_rounds m a p k @ rest) = live [] rest"
  by (induction k arbitrary: a p) auto

lemma single_page_failed_rounds:
  "single_page [] (failed_rounds m a p k @ rest) = single_page [] rest"
  by (induction k arbitrary: a p) auto

lemma navigated_append: "navigated (xs @ ys) = navigated xs @ navigated ys"
  by (induction xs rule: navigated.induct) auto

lemma sleeps_append: "sleeps (xs @ ys) = sleeps xs @ sleeps ys"
  by (induction xs rule: sleeps.induct) auto

lemma navigated_failed_rounds: "navigated (failed_rounds m a p k) = [p..<p + k]"
proof (induction k arbitrary: a p)
  case 0
  then show ?case by simp
next
  case (Suc k)
  then show ?case by (simp add: navigated_append upt_rec)
qed

lemma closed_failed_rounds:
  "ClosePage q \<in> set (failed_rounds m a p k) \<longleftrightarrow> p \<le> q \<and> q < p + k"
  by (induction k arbitrary: a p) auto

lemma sleeps_failed_rounds:
  "a + int k \<le> m \<Longrightarrow> sleeps (failed_rounds m a p k) = map (\<lambda>i. 5 * (a + int i)) [1..<Suc k]"
proof (induction k arbitrary: a p)
  case 0
  then show ?case by simp
next
  case (Suc k)
  have "sleeps (failed_rounds m (a + 1) (Suc p) k) = map (\<lambda>i. 5 * (a + 1 + int i)) [1..<Suc k]"
    using Suc.prems by (intro Suc.IH) simp
  also have "\<dots> = map (\<lambda>i. 5 * (a + int i)) (map Suc [1..<Suc k])"
    by (simp add: algebra_simps)
  also have "map Suc [1..<Suc k] = [2..<Suc (Suc k)]"
    by (simp add: map_Suc_upt numeral_2_eq_2 del: upt_Suc)
  finally have r: "sleeps (failed_rounds m (a + 1) (Suc p) k) = map (\<lambda>i. 5 * (a + int i)) [2..<Suc (Suc k)]" .
  have "[1..<Suc (Suc k)] = 1 # [2..<Suc (Suc k)]"
    by (simp add: upt_rec numeral_2_eq_2)
  with r show ?case using Suc.prems by (simp add: sleeps_append del: upt_Suc)
qed

lemma sleeps_failed_rounds_last:
  "a + int k = m \<Longrightarrow>
   sleeps (failed_rounds m a p (Suc k)) = map (\<lambda>i. 5 * (a + int i)) [1..<Suc k]"
proof -
  assume e: "a + int k = m"
  have "failed_rounds m a p (Suc k) = failed_rounds m a p k @ failed_rounds m (a + int k) (p + k) 1"
    using failed_rounds_append[of m a p k 1] by simp
  moreover have "sleeps (failed_rounds m (a + int k) (p + k) 1) = []"
    using e by simp
  moreover have "sleeps (failed_rounds m a p k) = map (\<lambda>i. 5 * (a + int i)) [1..<Suc k]"
    using e by (intro sleeps_failed_rounds) simp
  ultimately show ?thesis by (simp only: sleeps_append append_Nil2)
qed

lemma no_sleeps_between: "sleeps es = [] \<Longrightarrow> sleeps_between seen es"
  by (induction es arbitrary: seen rule: sleeps.induct) auto

lemma sleeps_between_failed_rounds:
  assumes "a + int k \<le> m + 1" "a + int k \<le> m \<longrightarrow> navigated rest \<noteq> []" "sleeps rest = []"
  shows "sleeps_between seen (failed_rounds m a p k @ rest)"
  using assms
proof (induction k arbitrary: a p seen)
  case 0
  then show ?case by (simp add: no_sleeps_between)
next
  case (Suc k)
  have ih: "sleeps_between True (failed_rounds m (a + 1) (Suc p) k @ rest)"
    using Suc.prems by (intro Suc.IH) auto
  have nav: "a < m \<Longrightarrow> navigated (failed_rounds m (a + 1) (Suc p) k @ rest) \<noteq> []"
    using Suc.prems(2) by (cases k) (auto simp: navigated_append)
  from ih nav show ?case by simp
qed

lemma emitted_update:
  "emitted ctx (ctx\<lparr>next_page := q, trace := trace ctx @ xs\<rparr>) = xs"
  by (simp add: emitted_def)

lemma login_with_cookie_run:
  fixes site ctx s m
  defines "p \<equiv> next_page ctx" and "n \<equiv> nat (m + 1)"
  defines "k \<equiv> leading_failures site p n"
  shows "\<exists>cs ctx'. parse_cookies s = Inr cs \<and>
     login_with_cookie site ctx s m = Inr ((p + k, k < n), ctx') \<and>
     emitted ctx ctx' = AddCookies cs # failed_rounds m 0 p k @ final_events (p + k) (k < n)"
proof -
  obtain cs where cs: "parse_cookies s = Inr cs"
    using parse_cookies_filter by blast
  let ?init = "add_cookies cs ctx"
  have kn: "k \<le> n" unfolding k_def by (rule leading_failures_le)
  have l: "login_with_cookie site ctx s m = Inr (login_outcome site m 0 ?init)"
    by (simp add: login_with_cookie_def cs login_loop_outcome)
  have np: "next_page ?init = p" by (simp add: add_cookies_def p_def)
  show ?thesis
  proof (cases "k < n")
    case True
    let ?c = "ctx\<lparr>next_page := Suc (p + k),
                trace := trace ctx @ (AddCookies cs # failed_rounds m 0 p k
                           @ [NewPage (p + k), Goto (p + k) ZEABUR_DASHBOARD_URL])\<rparr>"
    have "login_outcome site m 0 ?init = ((p + k, True), ?c)"
      using True by (simp add: login_outcome_def Let_def n_def k_def p_def add_cookies_def)
    moreover have "emitted ctx ?c = AddCookies cs # failed_rounds m 0 p k
                           @ [NewPage (p + k), Goto (p + k) ZEABUR_DASHBOARD_URL]"
      by (rule emitted_update)
    ultimately show ?thesis using cs l True by (simp add: final_events_def)
  next
    case False
    with kn have e: "k = n" by simp
    let ?c = "ctx\<lparr>next_page := Suc (p + n),
                trace := trace ctx @ (AddCookies cs # failed_rounds m 0 p n @ [NewPage (p + n)])\<rparr>"
    have "login_outcome site m 0 ?init = ((p + n, False), ?c)"
      using False by (simp add: login_outcome_def Let_def n_def k_def p_def add_cookies_def)
    moreover have "emitted ctx ?c = AddCookies cs # failed_rounds m 0 p n @ [NewPage (p + n)]"
      by (rule emitted_update)
    ultimately show ?thesis using cs l e by (simp add: final_events_def)
  qed
qed

lemma navigated_run:
  "navigated (AddCookies cs # failed_rounds m a p k @ final_events (p + k) ok)
     = [p..<p + k] @ (if ok then [p + k] else [])"
  by (simp add: navigated_append navigated_failed_rounds final_events_def)

lemma sleeps_run:
  assumes "k \<le> nat (m + 1)" "ok = (k < nat (m + 1))"
  shows "sleeps (AddCookies cs # failed_rounds m 0 p k @ final_events (p + k) ok)
     = map (\<lambda>i. 5 * int i) [1..<length ([p..<p + k] @ (if ok then [p + k] else []))]"
proof (cases ok)
  case True
  with assms have "0 + int k \<le> m" by linarith
  then have "sleeps (failed_rounds m 0 p k) = map (\<lambda>i. 5 * (0 + int i)) [1..<Suc k]"
    by (rule sleeps_failed_rounds)
  with True show ?thesis by (simp add: sleeps_append final_events_def del: upt_Suc)
next
  case False
  with assms have e: "k = nat (m + 1)" by simp
  show ?thesis
  proof (cases k)
    case 0
    with False show ?thesis by (simp add: final_events_def)
  next
    case (Suc j)
    with e have "0 + int j = m" by linarith
    then have "sleeps (failed_rounds m 0 p (Suc j)) = map (\<lambda>i. 5 * (0 + int i)) [1..<Suc j]"
      by (rule sleeps_failed_rounds_last)
    with False Suc show ?thesis by (simp add: sleeps_append final_events_def del: upt_Suc failed_rounds.simps)
  qed
qed

lemma sleeps_between_run:
  assumes "k \<le> nat (m + 1)" "ok = (k < nat (m + 1))"
  shows "sleeps_between False (AddCookies cs # failed_rounds m 0 p k @ final_events (p + k) ok)"
proof -
  have "sleeps_between False (failed_rounds m 0 p k @ final_events (p + k) ok)"
  proof (cases "k = 0")
    case True
    then show ?thesis by (simp add: final_events_def)
  next
    case False
    show ?thesis
    proof (rule sleeps_between_failed_rounds)
      show "0 + int k \<le> m + 1" using assms(1) False by linarith
      show "0 + int k \<le> m \<longrightarrow> navigated (final_events (p + k) ok) \<noteq> []"
        using assms by (auto simp: final_events_def)
      show "sleeps (final_events (p + k) ok) = []" by (simp add: final_events_def)
    qed
  qed
  then show ?thesis by simp
qed

lemma timeline_append: "timeline (xs @ ys) = timeline xs @ timeline ys"
  by (induction xs rule: timeline.induct) auto

lemma schedule_append: "schedule p n (j + k) = schedule p n j @ schedule p (n + j) k"
  by (induction j arbitrary: n) auto

lemma timeline_failed_rounds:
  "int n + int k \<le> m \<Longrightarrow>
   (if n = 0 then [] else [Sleep (5 * int n)]) @ timeline (failed_rounds m (int n) (p + n) k)
     = schedule p n k @ (if n + k = 0 then [] else [Sleep (5 * int (n + k))])"
proof (induction k arbitrary: n)
  case 0
  then show ?case by simp
next
  case (Suc k)
  have "int (Suc n) + int k \<le> m" using Suc.prems by simp
  then have ih: "[Sleep (5 * int (Suc n))] @ timeline (failed_rounds m (int (Suc n)) (p + Suc n) k)
     = schedule p (Suc n) k @ [Sleep (5 * int (Suc n + k))]"
    using Suc.IH[of "Suc n"] by simp
  have lt: "int n < m" using Suc.prems by simp
  have "timeline (failed_rounds m (int n) (p + n) (Suc k))
     = Goto (p + n) ZEABUR_DASHBOARD_URL #
         [Sleep (5 * int (Suc n))] @ timeline (failed_rounds m (int (Suc n)) (p + Suc n) k)"
    using lt by (simp add: timeline_append algebra_simps)
  then show ?case
    unfolding ih by simp
qed

lemma timeline_run:
  assumes "k \<le> nat (m + 1)" "ok = (k < nat (m + 1))"
  shows "timeline (AddCookies cs # failed_rounds m 0 p k @ final_events (p + k) ok)
     = schedule p 0 (length ([p..<p + k] @ (if ok then [p + k] else [])))"
proof (cases ok)
  case True
  with assms have "int 0 + int k \<le> m" by linarith
  from timeline_failed_rounds[OF this, of p]
  have t: "timeline (failed_rounds m 0 p k) = schedule p 0 k @ (if k = 0 then [] else [Sleep (5 * int k)])"
    by simp
  have "schedule p 0 (k + 1) = schedule p 0 k @ schedule p k 1"
    using schedule_append[of p 0 k 1] by simp
  then show ?thesis
    using True by (simp add: timeline_append final_events_def t)
next
  case False
  with assms have e: "k = nat (m + 1)" by simp
  show ?thesis
  proof (cases k)
    case 0
    with False show ?thesis by (simp add: final_events_def)
  next
    case (Suc j)
    with e have jm: "int j = m" by linarith
    then have "int 0 + int j \<le> m" by simp
    from timeline_failed_rounds[OF this, of p]
    have t: "timeline (failed_rounds m 0 p j) = schedule p 0 j @ (if j = 0 then [] else [Sleep (5 * int j)])"
      by simp
    have fr: "failed_rounds m 0 p (Suc j) = failed_rounds m 0 p j @ failed_rounds m (0 + int j) (p + j) 1"
      using failed_rounds_append[of m 0 p j 1] by simp
    have l: "timeline (failed_rounds m (0 + int j) (p + j) 1) = [Goto (p + j) ZEABUR_DASHBOARD_URL]"
      using jm by simp
    have "schedule p 0 (j + 1) = schedule p 0 j @ schedule p j 1"
      using schedule_append[of p 0 j 1] by simp
    then have s: "schedule p 0 (Suc j) = schedule p 0 j @ (if j = 0 then [] else [Sleep (5 * int j)])
        @ [Goto (p + j) ZEABUR_DASHBOARD_URL]"
      by simp
    have "timeline (failed_rounds m 0 p (Suc j)) = schedule p 0 (Suc j)"
      unfolding fr timeline_append t l s by simp
    with False Suc show ?thesis
      by (simp add: timeline_append final_events_def del: failed_rounds.simps schedule.simps)
  qed
qed

lemma leading_failures_2_3:
  "(if leading_failures site p 3 < 3 then Suc (leading_failures site p 3) else leading_failures site p 3)
     = Suc (leading_failures site p 2)"
  by (simp add: numeral_3_eq_3 numeral_2_eq_2)

lemma validator_policy:
  "\<exists>page ok ctx'. login_with_cookie site ctx s m = Inr ((page, ok), ctx') \<and>
     length (navigated (emitted ctx ctx')) \<le> nat (m + 1) \<and>
     (0 \<le> m \<longrightarrow> 1 \<le> length (navigated (emitted ctx ctx'))) \<and>
     sleeps (emitted ctx ctx') = map (\<lambda>n. 5 * int n) [1..<length (navigated (emitted ctx ctx'))] \<and>
     sleeps_between False (emitted ctx ctx') \<and>
     length (navigated (emitted ctx ctx')) =
       (if leading_failures site (next_page ctx) (nat (m + 1)) < nat (m + 1)
        then Suc (leading_failures site (next_page ctx) (nat (m + 1)))
        else leading_failures site (next_page ctx) (nat (m + 1))) \<and>
     timeline (emitted ctx ctx') = schedule (next_page ctx) 0 (length (navigated (emitted ctx ctx')))"
proof -
  let ?p = "next_page ctx" and ?n = "nat (m + 1)"
  let ?k = "leading_failures site ?p ?n"
  obtain cs ctx' where r: "login_with_cookie site ctx s m = Inr ((?p + ?k, ?k < ?n), ctx')"
    and e: "emitted ctx ctx' = AddCookies cs # failed_rounds m 0 ?p ?k @ final_events (?p + ?k) (?k < ?n)"
    using login_with_cookie_run[of s site ctx m] by blast
  have kn: "?k \<le> ?n" by (rule leading_failures_le)
  have nav: "navigated (emitted ctx ctx') = [?p..<?p + ?k] @ (if ?k < ?n then [?p + ?k] else [])"
    unfolding e by (rule navigated_run)
  have 1: "length (navigated (emitted ctx ctx')) \<le> ?n"
    using kn by (simp add: nav)
  have 2: "0 \<le> m \<longrightarrow> 1 \<le> length (navigated (emitted ctx ctx'))"
    using kn by (auto simp: nav)
  have 3: "sleeps (emitted ctx ctx') = map (\<lambda>n. 5 * int n) [1..<length (navigated (emitted ctx ctx'))]"
    unfolding nav unfolding e using kn by (intro sleeps_run) simp_all
  have 4: "sleeps_between False (emitted ctx ctx')"
    unfolding e using kn by (intro sleeps_between_run) simp_all
  have 5: "length (navigated (emitted ctx ctx')) = (if ?k < ?n then Suc ?k else ?k)"
    by (simp add: nav)
  have 6: "timeline (emitted ctx ctx') = schedule ?p 0 (length (navigated (emitted ctx ctx')))"
    unfolding nav unfolding e using kn by (intro timeline_run) simp_all
  from r 1 2 3 4 5 6 show ?thesis by blast
qed

lemma schedule_3:
  "1 \<le> k \<Longrightarrow> k \<le> 3 \<Longrightarrow>
   schedule p 0 k =
     take (2 * k - 1)
       [Goto p ZEABUR_DASHBOARD_URL, Sleep 5, Goto (p + 1) ZEABUR_DASHBOARD_URL, Sleep 10,
        Goto (p + 2) ZEABUR_DASHBOARD_URL]"
proof -
  assume "1 \<le> k" "k \<le> 3"
  then have "k = 1 \<or> k = 2 \<or> k = 3" by auto
  then show ?thesis
    by (auto simp: numeral_3_eq_3 numeral_2_eq_2)
qed

lemma closed_run:
  "ClosePage q \<in> set (AddCookies cs # failed_rounds m a p k @ final_events (p + k) ok)
     \<longleftrightarrow> p \<le> q \<and> q < p + k"
  by (auto simp: closed_failed_rounds final_events_def)

lemma single_page_run:
  "single_page [] (AddCookies cs # failed_rounds m a p k @ final_events (p + k) ok)"
  by (simp add: single_page_failed_rounds final_events_def)

lemma live_run:
  "live [] (AddCookies cs # failed_rounds m a p k @ final_events (p + k) ok) = [p + k]"
  by (simp add: live_failed_rounds final_events_def)

lemma last_run:
  "last (AddCookies cs # failed_rounds m a p k @ final_events (p + k) False) = NewPage (p + k)"
  by (simp add: final_events_def)

lemma upt_0_3: "[0..<3] = [0, 1, 2]"
  by code_simp

lemma upt_1_3: "[1..<3] = [1, 2]"
  by code_simp

lemma run_rra:
  "login_with_cookie site_rra new_context ''sid=1'' 2 =
     Inr ((2, True),
          \<lparr>next_page = 3,
           trace = [AddCookies [\<lparr>name = ''sid'', value = ''1'', domain = Some ''.zeabur.com'', path = ''/''\<rparr>],
                    NewPage 0, Goto 0 ''https://zeabur.com/projects'', ClosePage 0, Sleep 5,
                    NewPage 1, Goto 1 ''https://zeabur.com/projects'', ClosePage 1, Sleep 10,
                    NewPage 2, Goto 2 ''https://zeabur.com/projects'']\<rparr>)"
  by code_simp

section \<open>Properties of the notifier, the publisher and the main sequence\<close>

lemma fst_bind: "fst (bind m f) = (case fst m of Inl e \<Rightarrow> Inl e | Inr x \<Rightarrow> fst (f x))"
  by (cases m) (auto simp: bind_def split: sum.splits prod.splits)

lemma snd_bind:
  "snd (bind m f) = (case fst m of Inl e \<Rightarrow> snd m | Inr x \<Rightarrow> snd m @ snd (f x))"
  by (cases m) (auto simp: bind_def split: sum.splits prod.splits)

lemma fst_exc:
  "fst (exc m) = (case fst m of Inl e \<Rightarrow> Inl (Exception e) | Inr x \<Rightarrow> Inr x)"
  by (cases m) (auto simp: exc_def split: sum.splits)

lemma snd_exc: "snd (exc m) = snd m"
  by (cases m) (auto simp: exc_def split: sum.splits)

lemma fst_pure: "fst (pure r) = r"
  by (simp add: pure_def)

lemma snd_pure: "snd (pure r) = []"
  by (simp add: pure_def)

lemma fst_send:
  "fst (send w r) =
     (case reply_of w r of NetworkError \<Rightarrow> Inl RequestException
      | Response status body \<Rightarrow> Inr (status, body))"
  by (simp add: send_def split: http_reply.splits)

lemma snd_send: "snd (send w r) = [Net r]"
  by (simp add: send_def split: http_reply.splits)

lemma fst_except_false:
  "fst (except_false label m) = (case fst m of Inl e \<Rightarrow> Inr False | Inr b \<Rightarrow> Inr b)"
  by (cases m) (auto simp: except_false_def split: sum.splits)

lemma snd_except_false:
  "snd (except_false label m) =
     (case fst m of Inl e \<Rightarrow> snd m @ [Print (label @ str_exn e)] | Inr b \<Rightarrow> snd m)"
  by (cases m) (auto simp: except_false_def split: sum.splits)

lemma fst_send_telegram_message:
  "fst (send_telegram_message w bot_token chat_id message)
     = Inr (accepted w (PostJson (message_url bot_token) chat_id message))"
  by (simp add: send_telegram_message_def fst_except_false fst_bind fst_send fst_pure
      raise_for_status_def accepted_def split: http_reply.splits)

lemma snd_send_telegram_message:
  "snd (send_telegram_message w bot_token chat_id message)
     = Net (PostJson (message_url bot_token) chat_id message) #
       (if accepted w (PostJson (message_url bot_token) chat_id message) then []
        else [Print (''Telegram message failed: '' @
                     str_exn (failure_of w (PostJson (message_url bot_token) chat_id message)))])"
  by (simp add: send_telegram_message_def snd_except_false snd_bind fst_bind fst_send snd_send
      fst_pure snd_pure raise_for_status_def accepted_def failure_of_def split: http_reply.splits)

lemma fst_send_telegram_photo:
  "fst (send_telegram_photo w bot_token chat_id photo_path caption)
     = Inr (readable w photo_path \<and>
            accepted w (PostPhoto (photo_url bot_token) chat_id caption photo_path))"
  by (simp add: send_telegram_photo_def fst_except_false fst_bind fst_send fst_pure open_file_def
      raise_for_status_def accepted_def split: http_reply.splits)

lemma snd_send_telegram_photo:
  "snd (send_telegram_photo w bot_token chat_id photo_path caption)
     = OpenFile photo_path #
       (if \<not> readable w photo_path then [Print (''Telegram photo failed: '' @ str_exn OSError)]
        else Net (PostPhoto (photo_url bot_token) chat_id caption photo_path) #
          (if accepted w (PostPhoto (photo_url bot_token) chat_id caption photo_path) then []
           else [Print (''Telegram photo failed: '' @
                        str_exn (failure_of w (PostPhoto (photo_url bot_token) chat_id caption photo_path)))]))"
  by (simp add: send_telegram_photo_def snd_except_false snd_bind fst_bind fst_send snd_send fst_pure
      snd_pure open_file_def raise_for_status_def accepted_def failure_of_def
      split: http_reply.splits)

lemma update_github_secret_get_failed:
  assumes "\<not> accepted w (Get (key_url owner repo) token)"
  shows "\<exists>e. update_github_secret w token owner repo secret_name secret_value
           = (Inl e, [Net (Get (key_url owner repo) token)])"
  using assms
  by (auto simp: update_github_secret_def bind_def send_def pure_def raise_for_status_def
      accepted_def split: http_reply.splits)

lemma update_github_secret_actions:
  "snd (update_github_secret w token owner repo secret_name secret_value) = [Net (Get (key_url owner repo) token)] \<or>
   (\<exists>encrypted_value key_id.
      snd (update_github_secret w token owner repo secret_name secret_value) =
        [Net (Get (key_url owner repo) token),
         Net (Put (update_url owner repo secret_name) token encrypted_value key_id)])"
  by (auto simp: update_github_secret_def bind_def send_def pure_def raise_for_status_def
      json_def getitem_def
      split: http_reply.splits sum.splits option.splits prod.splits)

lemma fst_report_failure: "fst (report_failure w env error_msg) = Inl (SystemExit 1)"
  by (simp add: report_failure_def fst_bind fst_exc fst_send_telegram_message fst_pure sys_exit_def)

lemma fst_notify_success: "fst (notify_success w env logs) = Inr ()"
  by (simp add: notify_success_def fst_bind fst_exc fst_send_telegram_message
      fst_send_telegram_photo fst_pure)

lemma snd_notify_success:
  "notifier_configured env \<Longrightarrow>
   snd (notify_success w env logs) =
     snd (send_telegram_message w (get_default (TG_BOT_TOKEN env) []) (get_default (TG_CHAT_ID env) [])
            (success_message (clock w) logs))
     @ snd (send_telegram_photo w (get_default (TG_BOT_TOKEN env) []) (get_default (TG_CHAT_ID env) [])
            SCREENSHOT_PATH ''Zeabur dashboard'')"
  by (simp add: notify_success_def snd_bind fst_bind fst_exc snd_exc fst_send_telegram_message
      fst_send_telegram_photo fst_pure snd_pure)

lemma unpack2_Inr: "unpack2 xs = Inr (a, b) \<longleftrightarrow> xs = [a, b]"
  by (auto simp: unpack2_def split: list.splits)

lemma fst_refresh_secret_cases:
  "(\<exists>logs. fst (refresh_secret w env harvested) = Inr logs) \<or>
   (\<exists>e. fst (refresh_secret w env harvested) = Inl (Exception e))"
  by (auto simp: refresh_secret_def Let_def fst_bind fst_exc fst_pure split: sum.splits prod.splits)

lemma fst_refresh_secret:
  "(\<exists>logs. fst (refresh_secret w env harvested) = Inr logs) = published w env harvested"
proof (cases "truthy (REPO_TOKEN env) \<and> get_default (GITHUB_REPOSITORY env) [] \<noteq> [] \<and>
      format_cookies harvested \<noteq> []")
  case False
  then show ?thesis
    by (auto simp: refresh_secret_def Let_def fst_pure published_def)
next
  case True
  let ?parts = "str_split (CHR ''/'') (get_default (GITHUB_REPOSITORY env) [])"
  show ?thesis
  proof (cases "unpack2 ?parts")
    case (Inl e)
    then have "\<nexists>a b. ?parts = [a, b]" using unpack2_Inr[of ?parts] by auto
    with True Inl show ?thesis
      by (simp add: refresh_secret_def Let_def fst_bind fst_exc fst_pure published_def)
  next
    case (Inr ab)
    obtain a b where ab: "ab = (a, b)" by (cases ab)
    with Inr have p: "?parts = [a, b]" by (simp add: unpack2_Inr)
    show ?thesis
      using True Inr ab p
      by (auto simp: refresh_secret_def Let_def fst_bind fst_exc fst_pure published_def
          split: sum.splits)
  qed
qed

lemma fst_after_login_cases:
  "fst (after_login w env page) = Inr () \<or> (\<exists>e. fst (after_login w env page) = Inl (Exception e))"
proof (cases "screenshot_ok w")
  case False
  then show ?thesis
    by (simp add: after_login_def fst_bind fst_exc screenshot_def)
next
  case True
  show ?thesis
  proof (cases "jar_of w")
    case (Inl e)
    with True show ?thesis
      by (simp add: after_login_def fst_bind fst_exc screenshot_def cookies_def)
  next
    case (Inr harvested)
    from fst_refresh_secret_cases[of w env harvested] show ?thesis
    proof
      assume "\<exists>logs. fst (refresh_secret w env harvested) = Inr logs"
      then obtain logs where "fst (refresh_secret w env harvested) = Inr logs" by blast
      with True Inr show ?thesis
        by (simp add: after_login_def fst_bind fst_exc screenshot_def cookies_def fst_notify_success)
    next
      assume "\<exists>e. fst (refresh_secret w env harvested) = Inl (Exception e)"
      then obtain e where "fst (refresh_secret w env harvested) = Inl (Exception e)" by blast
      with True Inr show ?thesis
        by (simp add: after_login_def fst_bind fst_exc screenshot_def cookies_def)
    qed
  qed
qed

lemma fst_after_login:
  "(fst (after_login w env page) = Inr ()) =
     (screenshot_ok w \<and> (\<exists>harvested. jar_of w = Inr harvested \<and> published w env harvested))"
proof (cases "jar_of w")
  case (Inl e)
  then show ?thesis
    by (simp add: after_login_def fst_bind fst_exc screenshot_def cookies_def)
next
  case (Inr harvested)
  show ?thesis
  proof (cases "\<exists>logs. fst (refresh_secret w env harvested) = Inr logs")
    case True
    then obtain logs where l: "fst (refresh_secret w env harvested) = Inr logs" by blast
    from True have "published w env harvested" by (simp add: fst_refresh_secret)
    with Inr l show ?thesis
      by (simp add: after_login_def fst_bind fst_exc screenshot_def cookies_def fst_notify_success)
  next
    case False
    then obtain e where l: "fst (refresh_secret w env harvested) = Inl (Exception e)"
      using fst_refresh_secret_cases[of w env harvested] by blast
    from False have "\<not> published w env harvested" by (simp add: fst_refresh_secret)
    with Inr l show ?thesis
      by (simp add: after_login_def fst_bind fst_exc screenshot_def cookies_def)
  qed
qed

lemma fst_except_exception:
  "fst (except_exception m handler) =
     (case fst m of Inl (Exception e) \<Rightarrow> fst (handler e) | Inl (SystemExit n) \<Rightarrow> Inl (SystemExit n)
      | Inr x \<Rightarrow> Inr x)"
  by (cases m) (auto simp: except_exception_def split: sum.splits stop.splits prod.splits)

lemma fst_try_finally:
  "fst (try_finally m cleanup) =
     (case fst cleanup of Inl e \<Rightarrow> Inl (Exception e) | Inr u \<Rightarrow> fst m)"
  by (cases m; cases cleanup) (auto simp: try_finally_def split: sum.splits)

lemma login_returns:
  "\<exists>page ok ctx'. login_with_cookie site ctx s m = Inr ((page, ok), ctx')"
  using login_with_cookie_run[of s site ctx m] by blast

lemma fst_main_try:
  assumes "login_with_cookie (site_of w) new_context c 2 = Inr ((page, ok), ctx')"
  shows "fst (main_try w env c) = (if ok then fst (after_login w env page) else Inl (SystemExit 1))"
  using assms
  by (simp add: main_try_def fst_bind fst_exc validate_def fst_report_failure)

lemma fst_main:
  assumes "ZEABUR_COOKIE env = Some c" "c \<noteq> []"
    and "login_with_cookie (site_of w) new_context c 2 = Inr ((page, ok), ctx')"
  shows "fst (main w env) =
     (if \<not> launch_ok w \<or> \<not> close_ok w then Inl (Exception PlaywrightError)
      else if ok \<and> fst (after_login w env page) = Inr () then Inr ()
      else Inl (SystemExit 1))"
proof -
  have t: "truthy (ZEABUR_COOKIE env)" "get_default (ZEABUR_COOKIE env) [] = c"
    using assms(1,2) by (simp_all add: truthy_def get_default_def)
  have body: "fst (except_exception (main_try w env c) (failure_handler w env))
     = (if ok \<and> fst (after_login w env page) = Inr () then Inr () else Inl (SystemExit 1))"
    using fst_after_login_cases[of w env page]
    by (auto simp: fst_except_exception fst_main_try[OF assms(3)] fst_report_failure failure_handler_def)
  show ?thesis
    by (simp add: main_def t fst_bind fst_exc launch_def fst_try_finally close_browser_def body)
qed

lemma main_no_cookie: "\<not> truthy (ZEABUR_COOKIE env) \<Longrightarrow> main w env = (Inl (SystemExit 1), [])"
  by (simp add: main_def sys_exit_def)

lemma update_github_secret_outcome:
  "update_github_secret w token owner repo secret_name secret_value
     = publish_outcome w token owner repo secret_name secret_value"
  by (auto simp: update_github_secret_def publish_outcome_def bind_def send_def pure_def
      raise_for_status_def json_def getitem_def
      split: http_reply.splits sum.splits option.splits)

lemma publish_outcome_actions:
  "snd (publish_outcome w token owner repo secret_name secret_value)
       = [Net (Get (key_url owner repo) token)] \<or>
    (\<exists>encrypted_value key_id.
       snd (publish_outcome w token owner repo secret_name secret_value) =
         [Net (Get (key_url owner repo) token),
          Net (Put (update_url owner repo secret_name) token encrypted_value key_id)])"
  by (auto simp: publish_outcome_def split: http_reply.splits sum.splits option.splits)

lemma publish_outcome_get_failed:
  "\<not> accepted w (Get (key_url owner repo) token) \<Longrightarrow>
   publish_outcome w token owner repo secret_name secret_value
     = (Inl (failure_of w (Get (key_url owner repo) token)), [Net (Get (key_url owner repo) token)])"
  by (auto simp: publish_outcome_def accepted_def failure_of_def split: http_reply.splits)

lemma publish_outcome_put_sent:
  assumes "accepted w (Get (key_url owner repo) token)"
    and "reply_of w (Get (key_url owner repo) token) = Response status (Some key_data)"
    and "map_of key_data ''key'' = Some key" "map_of key_data ''key_id'' = Some key_id"
    and "seal_of w key secret_value = Inr encrypted_value"
  shows "publish_outcome w token owner repo secret_name secret_value =
     (if accepted w (Put (update_url owner repo secret_name) token encrypted_value key_id) then Inr ()
      else Inl (failure_of w (Put (update_url owner repo secret_name) token encrypted_value key_id)),
      [Net (Get (key_url owner repo) token),
       Net (Put (update_url owner repo secret_name) token encrypted_value key_id)])"
  using assms
  by (auto simp: publish_outcome_def accepted_def failure_of_def split: http_reply.splits)

lemma publish_outcome_put_failed:
  "Net (Put (update_url owner repo secret_name) token encrypted_value key_id)
         \<in> set (snd (publish_outcome w token owner repo secret_name secret_value)) \<Longrightarrow>
   \<not> accepted w (Put (update_url owner repo secret_name) token encrypted_value key_id) \<Longrightarrow>
   fst (publish_outcome w token owner repo secret_name secret_value)
     = Inl (failure_of w (Put (update_url owner repo secret_name) token encrypted_value key_id))"
  by (auto simp: publish_outcome_def accepted_def failure_of_def
      split: http_reply.splits sum.splits option.splits if_splits)

lemma publish_outcome_success:
  "fst (publish_outcome w token owner repo secret_name secret_value) = Inr () \<Longrightarrow>
   accepted w (Get (key_url owner repo) token) \<and>
   (\<exists>encrypted_value key_id.
      snd (publish_outcome w token owner repo secret_name secret_value) =
        [Net (Get (key_url owner repo) token),
         Net (Put (update_url owner repo secret_name) token encrypted_value key_id)] \<and>
      accepted w (Put (update_url owner repo secret_name) token encrypted_value key_id))"
proof -
  assume s: "fst (publish_outcome w token owner repo secret_name secret_value) = Inr ()"
  then obtain status body key_data key encrypted_value key_id status' body' where
    g: "reply_of w (Get (key_url owner repo) token) = Response status body"
      "\<not> (400 \<le> status \<and> status < 600)" "body = Some key_data"
    and k: "map_of key_data ''key'' = Some key" "seal_of w key secret_value = Inr encrypted_value"
      "map_of key_data ''key_id'' = Some key_id"
    and p: "reply_of w (Put (update_url owner repo secret_name) token encrypted_value key_id)
              = Response status' body'"
      "\<not> (400 \<le> status' \<and> status' < 600)"
    by (auto simp: publish_outcome_def
        split: http_reply.splits sum.splits option.splits if_splits)
  have "snd (publish_outcome w token owner repo secret_name secret_value) =
        [Net (Get (key_url owner repo) token),
         Net (Put (update_url owner repo secret_name) token encrypted_value key_id)]"
    using g k p by (simp add: publish_outcome_def)
  moreover have "accepted w (Put (update_url owner repo secret_name) token encrypted_value key_id)"
    using p by (simp add: accepted_def)
  moreover have "accepted w (Get (key_url owner repo) token)"
    using g by (simp add: accepted_def)
  ultimately show ?thesis by blast
qed

lemma map_of_key_answer:
  "map_of key_answer ''key'' = Some key_b64" "map_of key_answer ''key_id'' = Some ''568250167242549743''"
  by (simp_all add: key_answer_def)

lemma with_notifier_other:
  "reply_of (with_notifier w answers can_read) (Get u t) = reply_of w (Get u t)"
  "reply_of (with_notifier w answers can_read) (Put u t v k) = reply_of w (Put u t v k)"
  "seal_of (with_notifier w answers can_read) = seal_of w"
  "site_of (with_notifier w answers can_read) = site_of w"
  "launch_ok (with_notifier w answers can_read) = launch_ok w"
  "screenshot_ok (with_notifier w answers can_read) = screenshot_ok w"
  "jar_of (with_notifier w answers can_read) = jar_of w"
  "close_ok (with_notifier w answers can_read) = close_ok w"
  by (simp_all add: with_notifier_def is_notification_def)

lemma publish_outcome_with_notifier:
  "publish_outcome (with_notifier w answers can_read) token owner repo secret_name secret_value
     = publish_outcome w token owner repo secret_name secret_value"
  by (simp add: publish_outcome_def with_notifier_other
      cong: http_reply.case_cong option.case_cong sum.case_cong if_cong)

lemma published_with_notifier:
  "published (with_notifier w answers can_read) env harvested = published w env harvested"
  by (simp add: published_def update_github_secret_outcome publish_outcome_with_notifier)

lemma after_login_with_notifier:
  "(fst (after_login (with_notifier w answers can_read) env page) = Inr ())
     = (fst (after_login w env page) = Inr ())"
  by (simp add: fst_after_login published_with_notifier with_notifier_other)

lemma fst_main_with_notifier:
  "fst (main (with_notifier w answers can_read) env) = fst (main w env)"
proof (cases "truthy (ZEABUR_COOKIE env)")
  case False
  then show ?thesis by (simp add: main_no_cookie)
next
  case True
  then obtain c where c: "ZEABUR_COOKIE env = Some c" "c \<noteq> []"
    by (auto simp: truthy_def split: option.splits)
  obtain page ok ctx' where l: "login_with_cookie (site_of w) new_context c 2 = Inr ((page, ok), ctx')"
    using login_returns by blast
  note s = with_notifier_other(4,5,8)[of w answers can_read]
  from l have l': "login_with_cookie (site_of (with_notifier w answers can_read)) new_context c 2
      = Inr ((page, ok), ctx')"
    by (simp add: s)
  show ?thesis
    by (simp only: fst_main[OF c l] fst_main[OF c l'] s after_login_with_notifier)
qed

lemma run_ok: "exit_code (fst (main w_ok env_all)) = 0"
  by code_simp

lemma run_down:
  "login_with_cookie (site_of (w_ok\<lparr>site_of := site_down\<rparr>)) new_context ''sid=1'' 2 =
     Inr ((3, False),
          \<lparr>next_page = 4,
           trace = [AddCookies [\<lparr>name = ''sid'', value = ''1'', domain = Some ''.zeabur.com'', path = ''/''\<rparr>],
                    NewPage 0, Goto 0 ''https://zeabur.com/projects'', ClosePage 0, Sleep 5,
                    NewPage 1, Goto 1 ''https://zeabur.com/projects'', ClosePage 1, Sleep 10,
                    NewPage 2, Goto 2 ''https://zeabur.com/projects'', ClosePage 2,
                    NewPage 3]\<rparr>)"
  by code_simp

lemma publish_put_rejected:
  "update_github_secret (w_ok\<lparr>reply_of := reply_put_rejected\<rparr>) ''tok'' ''me'' ''repo'' ''ZEABUR_COOKIE'' ''sid=9''
     = (Inl (HTTPError 422),
        [Net (Get (key_url ''me'' ''repo'') ''tok''),
         Net (Put (update_url ''me'' ''repo'' ''ZEABUR_COOKIE'') ''tok'' (sealed_text ''sid=9'')
                ''568250167242549743'')])"
  by (simp add: update_github_secret_outcome publish_outcome_def w_ok_def reply_put_rejected_def
      map_of_key_answer)

section \<open>The cookie codec: claims\<close>

text \<open>
  C5 (amended). For cookies whose domain contains \<^verbatim>\<open>zeabur.com\<close> and whose name and value
  are plain (no semicolon, no leading or trailing whitespace, no equals sign in the name),
  parsing the formatted string returns without exception the same name/value pairs in the
  same order, each with the fixed domain and path.
\<close>

theorem roundtrip_plain:
  "\<forall>c \<in> set cs. in_target c \<and> plain c \<Longrightarrow>
   parse_cookies (format_cookies cs) = Inr (map retarget cs) \<and>
   map name_value (map retarget cs) = map name_value cs"
proof -
  assume a: "\<forall>c \<in> set cs. in_target c \<and> plain c"
  then have f: "filter in_target cs = cs" by simp
  from a have "parse_cookies (format_cookies cs) = Inr (map retarget (filter in_target cs))"
    by (intro parse_format_plain) simp
  then show ?thesis
    by (simp add: f name_value_def[abs_def] retarget_def)
qed

theorem roundtrip_plain_witness:
  "parse_cookies (format_cookies [c_a, c_b]) = Inr (map retarget [c_a, c_b]) \<and>
   map name_value (map retarget [c_a, c_b]) = [(''a'', ''1''), (''sid'', ''x=y z'')]"
proof -
  have h: "\<forall>c \<in> set [c_a, c_b]. in_target c \<and> plain c"
    by (simp add: c_a_def c_b_def in_target_def get_domain_def plain_def stripped_def isspace_def)
  have "map name_value [c_a, c_b] = [(''a'', ''1''), (''sid'', ''x=y z'')]"
    by (simp add: name_value_def c_a_def c_b_def)
  then show ?thesis
    using roundtrip_plain[OF h] by (simp only:)
qed

text \<open>
  C5 as stated fails: a cookie of the target domain whose value holds a semicolon comes
  back with its value cut at the semicolon.
\<close>

theorem roundtrip_counterexample:
  "in_target c_semi \<and>
   parse_cookies (format_cookies [c_semi])
     = Inr [\<lparr>name = ''a'', value = ''x'', domain = Some ''.zeabur.com'', path = ''/''\<rparr>] \<and>
   set (map name_value
          [\<lparr>name = ''a'', value = ''x'', domain = Some ''.zeabur.com'', path = ''/''\<rparr>])
     \<noteq> set (map name_value [c_semi])"
  by (simp add: c_semi_def in_target_def get_domain_def format_cookies_def parse_cookies_def
      str_split1_def str_strip_def isspace_def name_value_def py_index_def)

text \<open>
  C6. The output of \<^verbatim>\<open>format_cookies\<close> is the \<^verbatim>\<open>name=value\<close> texts of the cookies whose
  domain contains \<^verbatim>\<open>zeabur.com\<close>, joined by \<^verbatim>\<open>; \<close>; it is unchanged when the other cookies
  are removed from the input, and a cookie whose domain does not match adds nothing
  wherever it stands in the input.
\<close>

theorem format_cookies_filters:
  "format_cookies cs = str_join ''; '' (map pair_text (filter in_target cs)) \<and>
   format_cookies cs = format_cookies (filter in_target cs) \<and>
   (\<not> in_target c \<longrightarrow> format_cookies (xs @ c # ys) = format_cookies (xs @ ys))"
  by (simp add: format_cookies_alt)

theorem format_cookies_filters_witness:
  "\<not> in_target c_other \<and> format_cookies ([c_a] @ c_other # [c_b]) = ''a=1; sid=x=y z''"
proof -
  have n: "\<not> in_target c_other"
    by (simp add: c_other_def in_target_def get_domain_def)
  have "format_cookies ([c_a] @ [c_b]) = ''a=1; sid=x=y z''"
    by (simp add: c_a_def c_b_def format_cookies_def get_domain_def)
  with n show ?thesis
    using format_cookies_filters[of "[c_a, c_other, c_b]" c_other "[c_a]" "[c_b]"]
    by (simp only: simp_thms)
qed

text \<open>
  C7. \<^verbatim>\<open>parse_cookies\<close> returns normally on every string: the result is never an
  exception. It holds one record for each piece between semicolons that has an equals
  sign, in order, and nothing for the other pieces: a piece without an equals sign (the
  empty piece too) between two semicolons can be deleted from the input without changing
  the result.
\<close>

theorem parse_cookies_drops_malformed:
  "parse_cookies s = Inr (map record_of (filter has_eq (str_split (CHR '';'') s))) \<and>
   (CHR ''='' \<notin> set seg \<and> CHR '';'' \<notin> set seg \<longrightarrow>
      parse_cookies (a @ '';'' @ seg @ '';'' @ b) = parse_cookies (a @ '';'' @ b))"
proof -
  have "parse_cookies (a @ '';'' @ seg @ '';'' @ b) = parse_cookies (a @ '';'' @ b)"
    if "CHR ''='' \<notin> set seg" "CHR '';'' \<notin> set seg"
    using that
    by (simp add: parse_cookies_filter str_split_append str_split_no_sep has_eq_def)
  then show ?thesis by (simp add: parse_cookies_filter)
qed

theorem parse_cookies_drops_malformed_witness:
  "parse_cookies (''a=1'' @ '';'' @ '' junk '' @ '';'' @ '' b = 2 '')
     = Inr [\<lparr>name = ''a'', value = ''1'', domain = Some ''.zeabur.com'', path = ''/''\<rparr>,
            \<lparr>name = ''b'', value = ''2'', domain = Some ''.zeabur.com'', path = ''/''\<rparr>]"
proof -
  have h: "CHR ''='' \<notin> set '' junk '' \<and> CHR '';'' \<notin> set '' junk ''" by simp
  have "parse_cookies (''a=1'' @ '';'' @ '' b = 2 '')
     = Inr [\<lparr>name = ''a'', value = ''1'', domain = Some ''.zeabur.com'', path = ''/''\<rparr>,
            \<lparr>name = ''b'', value = ''2'', domain = Some ''.zeabur.com'', path = ''/''\<rparr>]"
    by (simp add: parse_cookies_def str_split1_def str_strip_def isspace_def py_index_def)
  moreover have "parse_cookies (''a=1'' @ '';'' @ '' junk '' @ '';'' @ '' b = 2 '')
     = parse_cookies (''a=1'' @ '';'' @ '' b = 2 '')"
    by (rule parse_cookies_drops_malformed[of "[]" "'' junk ''" "''a=1''" "'' b = 2 ''",
          THEN conjunct2, THEN mp, OF h])
  ultimately show ?thesis by (simp only:)
qed

text \<open>
  C10. Whatever the input string, \<^verbatim>\<open>parse_cookies\<close> returns records that all carry the
  domain \<^verbatim>\<open>.zeabur.com\<close> and the path \<^verbatim>\<open>/\<close>; \<^verbatim>\<open>format_cookies\<close> keeps every one of them;
  parsing the formatted result gives the same records again, so formatting after parsing
  is idempotent.
\<close>

theorem decode_domain_invariant:
  "\<exists>cs. parse_cookies s = Inr cs \<and>
     (\<forall>c \<in> set cs. domain c = Some ''.zeabur.com'' \<and> path c = ''/'') \<and>
     filter in_target cs = cs \<and>
     format_cookies cs = str_join ''; '' (map pair_text cs) \<and>
     parse_cookies (format_cookies cs) = Inr cs"
proof -
  let ?cs = "map record_of (filter has_eq (str_split (CHR '';'') s))"
  have 0: "parse_cookies s = Inr ?cs" by (rule parse_cookies_filter)
  have 1: "\<forall>c \<in> set ?cs. domain c = Some ''.zeabur.com'' \<and> path c = ''/''"
    by (auto simp: record_of_def)
  have 2: "filter in_target ?cs = ?cs"
    using parse_cookies_plain[OF 0] by simp
  have 3: "format_cookies ?cs = str_join ''; '' (map pair_text ?cs)"
    by (simp only: format_cookies_alt 2)
  have 4: "parse_cookies (format_cookies ?cs) = Inr ?cs"
    by (rule parse_format_parse[OF 0])
  from 0 1 2 3 4 show ?thesis by (intro exI[of _ ?cs] conjI)
qed

theorem decode_domain_invariant_witness:
  "parse_cookies '' a = 1 ;junk; b=x=y''
     = Inr [\<lparr>name = ''a'', value = ''1'', domain = Some ''.zeabur.com'', path = ''/''\<rparr>,
            \<lparr>name = ''b'', value = ''x=y'', domain = Some ''.zeabur.com'', path = ''/''\<rparr>] \<and>
   parse_cookies (format_cookies
          [\<lparr>name = ''a'', value = ''1'', domain = Some ''.zeabur.com'', path = ''/''\<rparr>,
           \<lparr>name = ''b'', value = ''x=y'', domain = Some ''.zeabur.com'', path = ''/''\<rparr>])
     = Inr [\<lparr>name = ''a'', value = ''1'', domain = Some ''.zeabur.com'', path = ''/''\<rparr>,
            \<lparr>name = ''b'', value = ''x=y'', domain = Some ''.zeabur.com'', path = ''/''\<rparr>]"
proof -
  let ?cs = "[\<lparr>name = ''a'', value = ''1'', domain = Some ''.zeabur.com'', path = ''/''\<rparr>,
              \<lparr>name = ''b'', value = ''x=y'', domain = Some ''.zeabur.com'', path = ''/''\<rparr>]"
  have p: "parse_cookies '' a = 1 ;junk; b=x=y'' = Inr ?cs"
    by (simp add: parse_cookies_def str_split1_def str_strip_def isspace_def py_index_def)
  obtain cs where c: "parse_cookies '' a = 1 ;junk; b=x=y'' = Inr cs"
      "parse_cookies (format_cookies cs) = Inr cs"
    using decode_domain_invariant[of "'' a = 1 ;junk; b=x=y''"] by (elim exE conjE)
  from c(1) p have "cs = ?cs" by simp
  with c(2) p show ?thesis by (simp only: simp_thms)
qed

section \<open>The session validator: claims\<close>

text \<open>
  C1. Each attempt classifies the URL the navigation ended on. From any state of the loop
  with an attempt left: when the URL does not contain \<^verbatim>\<open>/login\<close> the loop returns success
  with the page of this attempt, after opening and navigating it and nothing else, so the
  page is still open; when the URL contains \<^verbatim>\<open>/login\<close> the loop continues with the next
  attempt from a state in which the page of this attempt has been closed. Over a whole
  run of \<^verbatim>\<open>login_with_cookie\<close>: no page is opened while another page of the run is open;
  every navigated page whose attempt failed was closed and is not the returned one; a
  navigated page whose attempt did not fail is the returned page, returned with success
  and never closed.
\<close>

theorem validator_classifies:
  "(attempt \<le> m \<and> site (next_page ctx) = Landed url \<and> \<not> str_in ''/login'' url \<longrightarrow>
      (\<exists>ctx'. login_loop site m attempt ctx = ((next_page ctx, True), ctx') \<and>
              emitted ctx ctx' = [NewPage (next_page ctx), Goto (next_page ctx) ZEABUR_DASHBOARD_URL] \<and>
              live [] (emitted ctx ctx') = [next_page ctx])) \<and>
   (attempt \<le> m \<and> site (next_page ctx) = Landed url \<and> str_in ''/login'' url \<longrightarrow>
      (\<exists>c. login_loop site m attempt ctx = login_loop site m (attempt + 1) c \<and>
           next_page c = Suc (next_page ctx) \<and>
           navigated (emitted ctx c) = [next_page ctx] \<and>
           live [] (emitted ctx c) = [])) \<and>
   (\<exists>page ok ctx'. login_with_cookie site ctx s m = Inr ((page, ok), ctx') \<and>
      single_page [] (emitted ctx ctx') \<and>
      (ok \<longrightarrow> page \<in> set (navigated (emitted ctx ctx'))) \<and>
      (\<forall>q \<in> set (navigated (emitted ctx ctx')).
          if failed site q then q \<noteq> page \<and> ClosePage q \<in> set (emitted ctx ctx')
          else q = page \<and> ok \<and> ClosePage q \<notin> set (emitted ctx ctx')))"
proof (intro conjI impI)
  assume a: "attempt \<le> m \<and> site (next_page ctx) = Landed url \<and> \<not> str_in ''/login'' url"
  then have "\<not> failed site (next_page ctx)" by (simp add: failed_def)
  with a have "login_loop site m attempt ctx =
    ((next_page ctx, True),
     ctx\<lparr>next_page := Suc (next_page ctx),
         trace := trace ctx @ [NewPage (next_page ctx), Goto (next_page ctx) ZEABUR_DASHBOARD_URL]\<rparr>)"
    by (intro login_loop_success) simp_all
  then show "\<exists>ctx'. login_loop site m attempt ctx = ((next_page ctx, True), ctx') \<and>
              emitted ctx ctx' = [NewPage (next_page ctx), Goto (next_page ctx) ZEABUR_DASHBOARD_URL] \<and>
              live [] (emitted ctx ctx') = [next_page ctx]"
    by (simp add: emitted_update)
next
  assume a: "attempt \<le> m \<and> site (next_page ctx) = Landed url \<and> str_in ''/login'' url"
  then have "failed site (next_page ctx)" by (simp add: failed_def)
  with a have "login_loop site m attempt ctx =
    login_loop site m (attempt + 1)
      (ctx\<lparr>next_page := Suc (next_page ctx),
           trace := trace ctx @ failed_rounds m attempt (next_page ctx) 1\<rparr>)"
    by (intro login_loop_failure) simp_all
  moreover have "navigated (failed_rounds m attempt (next_page ctx) 1) = [next_page ctx]"
    by simp
  moreover have "live [] (failed_rounds m attempt (next_page ctx) 1) = []"
    by simp
  ultimately show "\<exists>c. login_loop site m attempt ctx = login_loop site m (attempt + 1) c \<and>
           next_page c = Suc (next_page ctx) \<and>
           navigated (emitted ctx c) = [next_page ctx] \<and>
           live [] (emitted ctx c) = []"
    by (intro exI[of _ "ctx\<lparr>next_page := Suc (next_page ctx),
           trace := trace ctx @ failed_rounds m attempt (next_page ctx) 1\<rparr>"])
       (simp only: emitted_update, simp)
next
  let ?p = "next_page ctx" and ?n = "nat (m + 1)"
  let ?k = "leading_failures site ?p ?n"
  obtain cs ctx' where r: "login_with_cookie site ctx s m = Inr ((?p + ?k, ?k < ?n), ctx')"
    and e: "emitted ctx ctx' = AddCookies cs # failed_rounds m 0 ?p ?k @ final_events (?p + ?k) (?k < ?n)"
    using login_with_cookie_run[of s site ctx m] by blast
  have nav: "navigated (emitted ctx ctx') = [?p..<?p + ?k] @ (if ?k < ?n then [?p + ?k] else [])"
    unfolding e by (rule navigated_run)
  have cl: "ClosePage q \<in> set (emitted ctx ctx') \<longleftrightarrow> ?p \<le> q \<and> q < ?p + ?k" for q
    unfolding e by (rule closed_run)
  have 1: "single_page [] (emitted ctx ctx')"
    unfolding e by (rule single_page_run)
  have 2: "?k < ?n \<longrightarrow> ?p + ?k \<in> set (navigated (emitted ctx ctx'))"
    by (simp add: nav)
  have 3: "if failed site q then q \<noteq> ?p + ?k \<and> ClosePage q \<in> set (emitted ctx ctx')
           else q = ?p + ?k \<and> ?k < ?n \<and> ClosePage q \<notin> set (emitted ctx ctx')"
    if q: "q \<in> set (navigated (emitted ctx ctx'))" for q
  proof (cases "q < ?p + ?k")
    case True
    with q have pq: "?p \<le> q" by (auto simp: nav split: if_splits)
    with True have "q - ?p < ?k" by simp
    then have "failed site (?p + (q - ?p))" by (rule leading_failures_failed)
    with pq have "failed site q" by simp
    with True pq show ?thesis by (simp add: cl)
  next
    case False
    with q have eq: "q = ?p + ?k" and kn: "?k < ?n" by (auto simp: nav split: if_splits)
    from kn have "\<not> failed site (?p + ?k)" by (rule leading_failures_stop)
    with eq kn show ?thesis by (simp add: cl)
  qed
  from r 1 2 3 show "\<exists>page ok ctx'. login_with_cookie site ctx s m = Inr ((page, ok), ctx') \<and>
      single_page [] (emitted ctx ctx') \<and>
      (ok \<longrightarrow> page \<in> set (navigated (emitted ctx ctx'))) \<and>
      (\<forall>q \<in> set (navigated (emitted ctx ctx')).
          if failed site q then q \<noteq> page \<and> ClosePage q \<in> set (emitted ctx ctx')
          else q = page \<and> ok \<and> ClosePage q \<notin> set (emitted ctx ctx'))"
    by (intro exI[of _ "?p + ?k"] exI[of _ "?k < ?n"] exI[of _ ctx'] conjI ballI)
qed

theorem validator_classifies_witness:
  "(\<exists>ctx'. login_loop site_ok 2 0 new_context = ((0, True), ctx') \<and>
      emitted new_context ctx' = [NewPage 0, Goto 0 ZEABUR_DASHBOARD_URL] \<and>
      live [] (emitted new_context ctx') = [0]) \<and>
   (\<exists>c. login_loop site_down 2 0 \<lparr>next_page = 1, trace = []\<rparr>
            = login_loop site_down 2 (0 + 1) c \<and>
      next_page c = Suc 1 \<and>
      navigated (emitted \<lparr>next_page = 1, trace = []\<rparr> c) = [1] \<and>
      live [] (emitted \<lparr>next_page = 1, trace = []\<rparr> c) = []) \<and>
   (\<exists>ctx'. login_with_cookie site_rra new_context ''sid=1'' 2 = Inr ((2, True), ctx') \<and>
      navigated (emitted new_context ctx') = [0, 1, 2] \<and>
      single_page [] (emitted new_context ctx') \<and>
      failed site_rra 0 \<and> ClosePage 0 \<in> set (emitted new_context ctx') \<and>
      failed site_rra 1 \<and> ClosePage 1 \<in> set (emitted new_context ctx') \<and>
      \<not> failed site_rra 2 \<and> ClosePage 2 \<notin> set (emitted new_context ctx'))"
proof -
  have a: "(0::int) \<le> 2 \<and> site_ok (next_page new_context) = Landed ''https://zeabur.com/projects''
      \<and> \<not> str_in ''/login'' ''https://zeabur.com/projects''"
    by (simp add: site_ok_def)
  have b: "(0::int) \<le> 2 \<and> site_down (next_page \<lparr>next_page = 1, trace = []\<rparr>) = Landed ''https://zeabur.com/login''
      \<and> str_in ''/login'' ''https://zeabur.com/login''"
    by (simp add: site_down_def)
  have 1: "\<exists>ctx'. login_loop site_ok 2 0 new_context = ((0, True), ctx') \<and>
      emitted new_context ctx' = [NewPage 0, Goto 0 ZEABUR_DASHBOARD_URL] \<and>
      live [] (emitted new_context ctx') = [0]"
    using validator_classifies[of 0 2 site_ok new_context "''https://zeabur.com/projects''",
        THEN conjunct1, THEN mp, OF a]
    by (simp add: new_context_def)
  have 2: "\<exists>c. login_loop site_down 2 0 \<lparr>next_page = 1, trace = []\<rparr>
            = login_loop site_down 2 (0 + 1) c \<and>
      next_page c = Suc 1 \<and>
      navigated (emitted \<lparr>next_page = 1, trace = []\<rparr> c) = [1] \<and>
      live [] (emitted \<lparr>next_page = 1, trace = []\<rparr> c) = []"
    using validator_classifies[of 0 2 site_down "\<lparr>next_page = 1, trace = []\<rparr>" "''https://zeabur.com/login''",
        THEN conjunct2, THEN conjunct1, THEN mp, OF b]
    by simp
  obtain page ok ctx' where
    r: "login_with_cookie site_rra new_context ''sid=1'' 2 = Inr ((page, ok), ctx')"
    and sp: "single_page [] (emitted new_context ctx')"
    and cl: "\<forall>q \<in> set (navigated (emitted new_context ctx')).
          if failed site_rra q then q \<noteq> page \<and> ClosePage q \<in> set (emitted new_context ctx')
          else q = page \<and> ok \<and> ClosePage q \<notin> set (emitted new_context ctx')"
    using validator_classifies[of 0 2 site_rra new_context "[]" "''sid=1''",
        THEN conjunct2, THEN conjunct2]
    by blast
  from r have r': "login_with_cookie site_rra new_context ''sid=1'' 2 = Inr ((2, True), ctx')"
    and c: "trace ctx' = [AddCookies [\<lparr>name = ''sid'', value = ''1'', domain = Some ''.zeabur.com'', path = ''/''\<rparr>],
                    NewPage 0, Goto 0 ''https://zeabur.com/projects'', ClosePage 0, Sleep 5,
                    NewPage 1, Goto 1 ''https://zeabur.com/projects'', ClosePage 1, Sleep 10,
                    NewPage 2, Goto 2 ''https://zeabur.com/projects'']"
    unfolding run_rra by auto
  have nav: "navigated (emitted new_context ctx') = [0, 1, 2]"
    by (simp add: emitted_def new_context_def c)
  have f: "failed site_rra 0" "failed site_rra 1" "\<not> failed site_rra 2"
    by (simp_all add: failed_def site_rra_def)
  from cl f have q: "ClosePage 0 \<in> set (emitted new_context ctx')"
      "ClosePage 1 \<in> set (emitted new_context ctx')"
      "ClosePage 2 \<notin> set (emitted new_context ctx')"
    unfolding nav by simp_all
  from r' nav sp f q have 3: "\<exists>ctx'. login_with_cookie site_rra new_context ''sid=1'' 2 = Inr ((2, True), ctx') \<and>
      navigated (emitted new_context ctx') = [0, 1, 2] \<and>
      single_page [] (emitted new_context ctx') \<and>
      failed site_rra 0 \<and> ClosePage 0 \<in> set (emitted new_context ctx') \<and>
      failed site_rra 1 \<and> ClosePage 1 \<in> set (emitted new_context ctx') \<and>
      \<not> failed site_rra 2 \<and> ClosePage 2 \<notin> set (emitted new_context ctx')"
    by (intro exI[of _ ctx'] conjI)
  from 1 2 3 show ?thesis by (intro conjI)
qed

text \<open>
  C2. With \<^verbatim>\<open>max_retries = 2\<close> (the default of the parameter) a run makes at least one
  attempt and at most 3: one more than the number of attempts that fail before the first
  that does not, among the first two. The navigations and sleeps of the run are, in the
  order in which they happen, the attempts of the run with, directly before each attempt
  but the first, and nowhere else, one sleep of 5 times the number of the retry seconds:
  the run is the beginning of attempt, sleep 5, attempt, sleep 10, attempt that ends with
  its last attempt. So the sleeps of the run are 5 times 1, 5 times 2, ... seconds, one fewer
  than the attempts, none precedes the first attempt and none follows the last.
\<close>

theorem validator_retry_policy:
  "\<exists>page ok ctx'. login_with_cookie site ctx s 2 = Inr ((page, ok), ctx') \<and>
     length (navigated (emitted ctx ctx')) \<le> 3 \<and>
     1 \<le> length (navigated (emitted ctx ctx')) \<and>
     sleeps (emitted ctx ctx') = map (\<lambda>n. 5 * int n) [1..<length (navigated (emitted ctx ctx'))] \<and>
     sleeps_between False (emitted ctx ctx') \<and>
     length (navigated (emitted ctx ctx')) = Suc (leading_failures site (next_page ctx) 2) \<and>
     timeline (emitted ctx ctx') = schedule (next_page ctx) 0 (length (navigated (emitted ctx ctx'))) \<and>
     timeline (emitted ctx ctx') =
       take (2 * length (navigated (emitted ctx ctx')) - 1)
         [Goto (next_page ctx) ZEABUR_DASHBOARD_URL, Sleep 5,
          Goto (next_page ctx + 1) ZEABUR_DASHBOARD_URL, Sleep 10,
          Goto (next_page ctx + 2) ZEABUR_DASHBOARD_URL]"
proof -
  obtain page ok ctx' where r: "login_with_cookie site ctx s 2 = Inr ((page, ok), ctx')"
    and 1: "length (navigated (emitted ctx ctx')) \<le> nat (2 + 1)"
    and 2: "(0::int) \<le> 2 \<longrightarrow> 1 \<le> length (navigated (emitted ctx ctx'))"
    and 3: "sleeps (emitted ctx ctx') = map (\<lambda>n. 5 * int n) [1..<length (navigated (emitted ctx ctx'))]"
    and 4: "sleeps_between False (emitted ctx ctx')"
    and 5: "length (navigated (emitted ctx ctx')) =
       (if leading_failures site (next_page ctx) (nat (2 + 1)) < nat (2 + 1)
        then Suc (leading_failures site (next_page ctx) (nat (2 + 1)))
        else leading_failures site (next_page ctx) (nat (2 + 1)))"
    and 6: "timeline (emitted ctx ctx') = schedule (next_page ctx) 0 (length (navigated (emitted ctx ctx')))"
    using validator_policy[of site ctx s 2] by blast
  have n: "nat (2 + 1) = 3" by simp
  from 1 have le: "length (navigated (emitted ctx ctx')) \<le> 3" by simp
  from 2 have ge: "1 \<le> length (navigated (emitted ctx ctx'))" by simp
  from 5 have count: "length (navigated (emitted ctx ctx')) = Suc (leading_failures site (next_page ctx) 2)"
    unfolding n leading_failures_2_3 .
  have 7: "timeline (emitted ctx ctx') =
       take (2 * length (navigated (emitted ctx ctx')) - 1)
         [Goto (next_page ctx) ZEABUR_DASHBOARD_URL, Sleep 5,
          Goto (next_page ctx + 1) ZEABUR_DASHBOARD_URL, Sleep 10,
          Goto (next_page ctx + 2) ZEABUR_DASHBOARD_URL]"
    using 6 schedule_3[OF ge le, of "next_page ctx"] by (rule trans)
  from r le ge 3 4 count 6 7 show ?thesis by (intro exI conjI)
qed

theorem validator_retry_policy_witness:
  "\<exists>ctx'. login_with_cookie site_rra new_context ''sid=1'' 2 = Inr ((2, True), ctx') \<and>
     navigated (emitted new_context ctx') = [0, 1, 2] \<and>
     sleeps (emitted new_context ctx') = [5, 10] \<and>
     sleeps_between False (emitted new_context ctx') \<and>
     timeline (emitted new_context ctx') =
       [Goto 0 ZEABUR_DASHBOARD_URL, Sleep 5, Goto 1 ZEABUR_DASHBOARD_URL, Sleep 10,
        Goto 2 ZEABUR_DASHBOARD_URL]"
proof -
  obtain page ok ctx' where t: "login_with_cookie site_rra new_context ''sid=1'' 2 = Inr ((page, ok), ctx')"
     "sleeps (emitted new_context ctx') = map (\<lambda>n. 5 * int n) [1..<length (navigated (emitted new_context ctx'))]"
     "sleeps_between False (emitted new_context ctx')"
     "timeline (emitted new_context ctx') =
       take (2 * length (navigated (emitted new_context ctx')) - 1)
         [Goto (next_page new_context) ZEABUR_DASHBOARD_URL, Sleep 5,
          Goto (next_page new_context + 1) ZEABUR_DASHBOARD_URL, Sleep 10,
          Goto (next_page new_context + 2) ZEABUR_DASHBOARD_URL]"
    using validator_retry_policy[of site_rra new_context "''sid=1''"] by blast
  from t(1) have r: "login_with_cookie site_rra new_context ''sid=1'' 2 = Inr ((2, True), ctx')"
    and c: "trace ctx' = [AddCookies [\<lparr>name = ''sid'', value = ''1'', domain = Some ''.zeabur.com'', path = ''/''\<rparr>],
                    NewPage 0, Goto 0 ''https://zeabur.com/projects'', ClosePage 0, Sleep 5,
                    NewPage 1, Goto 1 ''https://zeabur.com/projects'', ClosePage 1, Sleep 10,
                    NewPage 2, Goto 2 ''https://zeabur.com/projects'']"
    unfolding run_rra by auto
  have nav: "navigated (emitted new_context ctx') = [0, 1, 2]"
    by (simp add: emitted_def new_context_def c)
  have s: "sleeps (emitted new_context ctx') = [5, 10]"
    using t(2) unfolding nav by (simp add: upt_1_3)
  have tl: "timeline (emitted new_context ctx') =
       [Goto 0 ZEABUR_DASHBOARD_URL, Sleep 5, Goto 1 ZEABUR_DASHBOARD_URL, Sleep 10,
        Goto 2 ZEABUR_DASHBOARD_URL]"
    using t(4) unfolding nav by (simp add: new_context_def)
  from r nav s t(3) tl show ?thesis by (intro exI conjI)
qed

text \<open>
  C3. When every one of the \<^verbatim>\<open>max_retries + 1\<close> attempts fails (its URL contains
  \<^verbatim>\<open>/login\<close>, or the navigation raised), \<^verbatim>\<open>login_with_cookie\<close> returns the verdict
  \<^verbatim>\<open>False\<close> with a page handle that was opened last, after exactly those attempts, was
  never navigated and is open. On every path, success or failure, the returned handle is
  the one page of the run that is open at the end.
\<close>

theorem validator_exhaustion:
  "((\<forall>i < nat (m + 1). failed site (next_page ctx + i)) \<longrightarrow>
     (\<exists>ctx'. login_with_cookie site ctx s m = Inr ((next_page ctx + nat (m + 1), False), ctx') \<and>
        navigated (emitted ctx ctx') = [next_page ctx..<next_page ctx + nat (m + 1)] \<and>
        last (emitted ctx ctx') = NewPage (next_page ctx + nat (m + 1)) \<and>
        live [] (emitted ctx ctx') = [next_page ctx + nat (m + 1)])) \<and>
   (\<exists>page ok ctx'. login_with_cookie site ctx s m = Inr ((page, ok), ctx') \<and>
        live [] (emitted ctx ctx') = [page])"
proof -
  let ?p = "next_page ctx" and ?n = "nat (m + 1)"
  let ?k = "leading_failures site ?p ?n"
  obtain cs ctx' where r: "login_with_cookie site ctx s m = Inr ((?p + ?k, ?k < ?n), ctx')"
    and e: "emitted ctx ctx' = AddCookies cs # failed_rounds m 0 ?p ?k @ final_events (?p + ?k) (?k < ?n)"
    using login_with_cookie_run[of s site ctx m] by blast
  have lv: "live [] (emitted ctx ctx') = [?p + ?k]"
    unfolding e by (rule live_run)
  have general: "\<exists>page ok ctx'. login_with_cookie site ctx s m = Inr ((page, ok), ctx') \<and>
        live [] (emitted ctx ctx') = [page]"
    using r lv by blast
  have exhausted: "\<exists>ctx'. login_with_cookie site ctx s m = Inr ((?p + ?n, False), ctx') \<and>
        navigated (emitted ctx ctx') = [?p..<?p + ?n] \<and>
        last (emitted ctx ctx') = NewPage (?p + ?n) \<and>
        live [] (emitted ctx ctx') = [?p + ?n]"
    if all: "\<forall>i < ?n. failed site (?p + i)"
  proof -
    have k: "?k = ?n" using all by (rule leading_failures_all)
    have "navigated (emitted ctx ctx') = [?p..<?p + ?k] @ (if ?k < ?n then [?p + ?k] else [])"
      unfolding e by (rule navigated_run)
    then have nav: "navigated (emitted ctx ctx') = [?p..<?p + ?n]" by (simp add: k)
    have "last (emitted ctx ctx') = NewPage (?p + ?k)"
      unfolding e by (simp add: k last_run del: last.simps)
    then have la: "last (emitted ctx ctx') = NewPage (?p + ?n)" by (simp add: k)
    from r have r': "login_with_cookie site ctx s m = Inr ((?p + ?n, False), ctx')" by (simp add: k)
    from lv have lv': "live [] (emitted ctx ctx') = [?p + ?n]" by (simp add: k)
    from r' nav la lv' show ?thesis by blast
  qed
  from exhausted general show ?thesis by blast
qed

theorem validator_exhaustion_witness:
  "\<exists>ctx'. login_with_cookie site_down new_context ''sid=1'' 2 = Inr ((3, False), ctx') \<and>
     navigated (emitted new_context ctx') = [0, 1, 2] \<and>
     last (emitted new_context ctx') = NewPage 3 \<and>
     live [] (emitted new_context ctx') = [3]"
proof -
  have f: "failed site_down q" for q
    by (simp add: failed_def site_down_def)
  have h: "\<forall>i < nat (2 + 1). failed site_down (next_page new_context + i)"
    by (simp add: f)
  have n: "next_page new_context = 0" "0 + nat (2 + 1) = (3::nat)"
    by (simp_all add: new_context_def)
  show ?thesis
    using validator_exhaustion[of 2 site_down new_context "''sid=1''", THEN conjunct1, THEN mp, OF h]
    unfolding n upt_0_3 .
qed

section \<open>Publisher, notifier and exit code: claims\<close>

text \<open>
  C4 (amended). A request is accepted when it gets a response whose status is not in 400
  to 599; otherwise it fails (no response, or a status that \<^verbatim>\<open>raise_for_status\<close> rejects).
  Every call of \<^verbatim>\<open>update_github_secret\<close> sends the GET of the public key first and then
  either nothing more or one PUT of the secret: no request is repeated. When the GET
  fails, the call raises the error of the GET and the GET is the only request sent. When
  the GET is accepted and its answer is a JSON object with a \<^verbatim>\<open>key\<close> under which the value
  can be sealed and a \<^verbatim>\<open>key_id\<close>, the requests sent are exactly the GET and then one PUT
  of the named secret, carrying the sealed value and that key id; the call returns normally
  when the PUT is accepted and raises the error of the PUT when it fails. When a PUT is
  sent and fails, the call raises its error. When the call returns normally, the GET and
  then the PUT were sent and both were accepted.
\<close>

theorem publisher_protocol:
  "(snd (update_github_secret w token owner repo secret_name secret_value)
       = [Net (Get (key_url owner repo) token)] \<or>
    (\<exists>encrypted_value key_id.
       snd (update_github_secret w token owner repo secret_name secret_value) =
         [Net (Get (key_url owner repo) token),
          Net (Put (update_url owner repo secret_name) token encrypted_value key_id)])) \<and>
   (\<not> accepted w (Get (key_url owner repo) token) \<longrightarrow>
      update_github_secret w token owner repo secret_name secret_value
         = (Inl (failure_of w (Get (key_url owner repo) token)),
            [Net (Get (key_url owner repo) token)])) \<and>
   (\<forall>status key_data key key_id encrypted_value.
      accepted w (Get (key_url owner repo) token) \<and>
      reply_of w (Get (key_url owner repo) token) = Response status (Some key_data) \<and>
      map_of key_data ''key'' = Some key \<and> map_of key_data ''key_id'' = Some key_id \<and>
      seal_of w key secret_value = Inr encrypted_value \<longrightarrow>
      update_github_secret w token owner repo secret_name secret_value =
        (if accepted w (Put (update_url owner repo secret_name) token encrypted_value key_id)
         then Inr ()
         else Inl (failure_of w (Put (update_url owner repo secret_name) token encrypted_value key_id)),
         [Net (Get (key_url owner repo) token),
          Net (Put (update_url owner repo secret_name) token encrypted_value key_id)])) \<and>
   (\<forall>encrypted_value key_id.
      Net (Put (update_url owner repo secret_name) token encrypted_value key_id)
         \<in> set (snd (update_github_secret w token owner repo secret_name secret_value)) \<and>
      \<not> accepted w (Put (update_url owner repo secret_name) token encrypted_value key_id) \<longrightarrow>
      fst (update_github_secret w token owner repo secret_name secret_value)
        = Inl (failure_of w (Put (update_url owner repo secret_name) token encrypted_value key_id))) \<and>
   (fst (update_github_secret w token owner repo secret_name secret_value) = Inr () \<longrightarrow>
      accepted w (Get (key_url owner repo) token) \<and>
      (\<exists>encrypted_value key_id.
         snd (update_github_secret w token owner repo secret_name secret_value) =
           [Net (Get (key_url owner repo) token),
            Net (Put (update_url owner repo secret_name) token encrypted_value key_id)] \<and>
         accepted w (Put (update_url owner repo secret_name) token encrypted_value key_id)))"
  unfolding update_github_secret_outcome
proof (intro conjI impI allI)
  show "snd (publish_outcome w token owner repo secret_name secret_value)
       = [Net (Get (key_url owner repo) token)] \<or>
    (\<exists>encrypted_value key_id.
       snd (publish_outcome w token owner repo secret_name secret_value) =
         [Net (Get (key_url owner repo) token),
          Net (Put (update_url owner repo secret_name) token encrypted_value key_id)])"
    by (rule publish_outcome_actions)
next
  assume "\<not> accepted w (Get (key_url owner repo) token)"
  then show "publish_outcome w token owner repo secret_name secret_value
         = (Inl (failure_of w (Get (key_url owner repo) token)),
            [Net (Get (key_url owner repo) token)])"
    by (rule publish_outcome_get_failed)
next
  fix status key_data key key_id encrypted_value
  assume a: "accepted w (Get (key_url owner repo) token) \<and>
      reply_of w (Get (key_url owner repo) token) = Response status (Some key_data) \<and>
      map_of key_data ''key'' = Some key \<and> map_of key_data ''key_id'' = Some key_id \<and>
      seal_of w key secret_value = Inr encrypted_value"
  show "publish_outcome w token owner repo secret_name secret_value =
        (if accepted w (Put (update_url owner repo secret_name) token encrypted_value key_id)
         then Inr ()
         else Inl (failure_of w (Put (update_url owner repo secret_name) token encrypted_value key_id)),
         [Net (Get (key_url owner repo) token),
          Net (Put (update_url owner repo secret_name) token encrypted_value key_id)])"
  proof (rule publish_outcome_put_sent)
    from a show "accepted w (Get (key_url owner repo) token)" by simp
    from a show "reply_of w (Get (key_url owner repo) token) = Response status (Some key_data)"
      by simp
    from a show "map_of key_data ''key'' = Some key" by simp
    from a show "map_of key_data ''key_id'' = Some key_id" by simp
    from a show "seal_of w key secret_value = Inr encrypted_value" by simp
  qed
next
  fix encrypted_value key_id
  assume a: "Net (Put (update_url owner repo secret_name) token encrypted_value key_id)
         \<in> set (snd (publish_outcome w token owner repo secret_name secret_value)) \<and>
      \<not> accepted w (Put (update_url owner repo secret_name) token encrypted_value key_id)"
  show "fst (publish_outcome w token owner repo secret_name secret_value)
        = Inl (failure_of w (Put (update_url owner repo secret_name) token encrypted_value key_id))"
    using a[THEN conjunct1] a[THEN conjunct2] by (rule publish_outcome_put_failed)
next
  assume s: "fst (publish_outcome w token owner repo secret_name secret_value) = Inr ()"
  from publish_outcome_success[OF s]
  show "accepted w (Get (key_url owner repo) token)" by (rule conjunct1)
  from publish_outcome_success[OF s]
  show "\<exists>encrypted_value key_id.
         snd (publish_outcome w token owner repo secret_name secret_value) =
           [Net (Get (key_url owner repo) token),
            Net (Put (update_url owner repo secret_name) token encrypted_value key_id)] \<and>
         accepted w (Put (update_url owner repo secret_name) token encrypted_value key_id)"
    by (rule conjunct2)
qed

theorem publisher_protocol_witness:
  "\<not> accepted (w_ok\<lparr>reply_of := reply_denied\<rparr>) (Get (key_url ''me'' ''repo'') ''tok'') \<and>
   update_github_secret (w_ok\<lparr>reply_of := reply_denied\<rparr>) ''tok'' ''me'' ''repo'' ''ZEABUR_COOKIE'' ''sid=9''
      = (Inl (HTTPError 403), [Net (Get (key_url ''me'' ''repo'') ''tok'')]) \<and>
   accepted w_ok (Get (key_url ''me'' ''repo'') ''tok'') \<and>
   reply_of w_ok (Get (key_url ''me'' ''repo'') ''tok'') = Response 200 (Some key_answer) \<and>
   map_of key_answer ''key'' = Some key_b64 \<and>
   map_of key_answer ''key_id'' = Some ''568250167242549743'' \<and>
   seal_of w_ok key_b64 ''sid=9'' = Inr (sealed_text ''sid=9'') \<and>
   update_github_secret w_ok ''tok'' ''me'' ''repo'' ''ZEABUR_COOKIE'' ''sid=9''
      = (Inr (), [Net (Get (key_url ''me'' ''repo'') ''tok''),
                  Net (Put (update_url ''me'' ''repo'' ''ZEABUR_COOKIE'') ''tok'' (sealed_text ''sid=9'')
                         ''568250167242549743'')]) \<and>
   Net (Put (update_url ''me'' ''repo'' ''ZEABUR_COOKIE'') ''tok'' (sealed_text ''sid=9'')
          ''568250167242549743'')
     \<in> set (snd (update_github_secret (w_ok\<lparr>reply_of := reply_put_rejected\<rparr>) ''tok'' ''me'' ''repo''
                   ''ZEABUR_COOKIE'' ''sid=9'')) \<and>
   \<not> accepted (w_ok\<lparr>reply_of := reply_put_rejected\<rparr>)
       (Put (update_url ''me'' ''repo'' ''ZEABUR_COOKIE'') ''tok'' (sealed_text ''sid=9'')
          ''568250167242549743'') \<and>
   fst (update_github_secret (w_ok\<lparr>reply_of := reply_put_rejected\<rparr>) ''tok'' ''me'' ''repo''
          ''ZEABUR_COOKIE'' ''sid=9'') = Inl (HTTPError 422) \<and>
   (\<exists>encrypted_value key_id.
      snd (update_github_secret w_ok ''tok'' ''me'' ''repo'' ''ZEABUR_COOKIE'' ''sid=9'') =
        [Net (Get (key_url ''me'' ''repo'') ''tok''),
         Net (Put (update_url ''me'' ''repo'' ''ZEABUR_COOKIE'') ''tok'' encrypted_value key_id)] \<and>
      accepted w_ok (Put (update_url ''me'' ''repo'' ''ZEABUR_COOKIE'') ''tok'' encrypted_value key_id))"
proof -
  let ?get = "Get (key_url ''me'' ''repo'') ''tok''"
  let ?put = "Put (update_url ''me'' ''repo'' ''ZEABUR_COOKIE'') ''tok'' (sealed_text ''sid=9'')
                ''568250167242549743''"
  have d: "\<not> accepted (w_ok\<lparr>reply_of := reply_denied\<rparr>) ?get"
    by (simp add: accepted_def w_ok_def reply_denied_def)
  have fd: "failure_of (w_ok\<lparr>reply_of := reply_denied\<rparr>) ?get = HTTPError 403"
    by (simp add: failure_of_def reply_denied_def)
  have g: "accepted w_ok ?get" "reply_of w_ok ?get = Response 200 (Some key_answer)"
    by (simp_all add: accepted_def w_ok_def)
  have k: "seal_of w_ok key_b64 ''sid=9'' = Inr (sealed_text ''sid=9'')"
    by (simp add: w_ok_def)
  have ap: "accepted w_ok ?put"
    by (simp add: accepted_def w_ok_def)
  have i: "Net ?put
     \<in> set (snd (update_github_secret (w_ok\<lparr>reply_of := reply_put_rejected\<rparr>) ''tok'' ''me'' ''repo''
                   ''ZEABUR_COOKIE'' ''sid=9''))"
    by (simp add: publish_put_rejected)
  have r: "\<not> accepted (w_ok\<lparr>reply_of := reply_put_rejected\<rparr>) ?put"
    by (simp add: accepted_def reply_put_rejected_def)
  have fr: "failure_of (w_ok\<lparr>reply_of := reply_put_rejected\<rparr>) ?put = HTTPError 422"
    by (simp add: failure_of_def reply_put_rejected_def)
  note p1 = publisher_protocol[of "w_ok\<lparr>reply_of := reply_denied\<rparr>" "''tok''" "''me''" "''repo''"
      "''ZEABUR_COOKIE''" "''sid=9''", THEN conjunct2, THEN conjunct1, THEN mp, OF d, unfolded fd]
  have h: "accepted w_ok ?get \<and> reply_of w_ok ?get = Response 200 (Some key_answer) \<and>
      map_of key_answer ''key'' = Some key_b64 \<and>
      map_of key_answer ''key_id'' = Some ''568250167242549743'' \<and>
      seal_of w_ok key_b64 ''sid=9'' = Inr (sealed_text ''sid=9'')"
    using g map_of_key_answer k by (intro conjI)
  have p2: "update_github_secret w_ok ''tok'' ''me'' ''repo'' ''ZEABUR_COOKIE'' ''sid=9''
      = (Inr (), [Net ?get, Net ?put])"
    using publisher_protocol[of w_ok "''tok''" "''me''" "''repo''" "''ZEABUR_COOKIE''" "''sid=9''",
        THEN conjunct2, THEN conjunct2, THEN conjunct1, THEN spec, THEN spec, THEN spec, THEN spec,
        THEN spec, THEN mp, OF h] ap
    by simp
  note p3 = publisher_protocol[of "w_ok\<lparr>reply_of := reply_put_rejected\<rparr>" "''tok''" "''me''" "''repo''"
      "''ZEABUR_COOKIE''" "''sid=9''", THEN conjunct2, THEN conjunct2, THEN conjunct2, THEN conjunct1,
      THEN spec, THEN spec, THEN mp, OF conjI[OF i r], unfolded fr]
  have s: "fst (update_github_secret w_ok ''tok'' ''me'' ''repo'' ''ZEABUR_COOKIE'' ''sid=9'') = Inr ()"
    by (simp add: p2)
  note p4 = publisher_protocol[of w_ok "''tok''" "''me''" "''repo''"
      "''ZEABUR_COOKIE''" "''sid=9''", THEN conjunct2, THEN conjunct2, THEN conjunct2, THEN conjunct2,
      THEN mp, OF s, THEN conjunct2]
  from d p1 g map_of_key_answer k p2 i r p3 p4 show ?thesis by (intro conjI)
qed

text \<open>
  C4 as stated fails for a status outside 200 to 299 that \<^verbatim>\<open>raise_for_status\<close> lets
  pass: the PUT is answered 304, and the call returns normally. And a GET that does not
  fail is not always followed by a PUT: answered 200 with a body that is not JSON, the
  call raises after the GET alone.
\<close>

theorem publisher_counterexample:
  "reply_of (w_ok\<lparr>reply_of := reply_304\<rparr>)
      (Put (update_url ''me'' ''repo'' ''ZEABUR_COOKIE'') ''tok'' (sealed_text ''sid=9'')
         ''568250167242549743'')
     = Response 304 None \<and>
   \<not> (200 \<le> (304::nat) \<and> (304::nat) < 300) \<and>
   update_github_secret (w_ok\<lparr>reply_of := reply_304\<rparr>) ''tok'' ''me'' ''repo'' ''ZEABUR_COOKIE'' ''sid=9''
     = (Inr (), [Net (Get (key_url ''me'' ''repo'') ''tok''),
                 Net (Put (update_url ''me'' ''repo'' ''ZEABUR_COOKIE'') ''tok'' (sealed_text ''sid=9'')
                        ''568250167242549743'')]) \<and>
   reply_of (w_ok\<lparr>reply_of := reply_no_json\<rparr>) (Get (key_url ''me'' ''repo'') ''tok'')
     = Response 200 None \<and>
   (200 \<le> (200::nat) \<and> (200::nat) < 300) \<and>
   update_github_secret (w_ok\<lparr>reply_of := reply_no_json\<rparr>) ''tok'' ''me'' ''repo'' ''ZEABUR_COOKIE'' ''sid=9''
     = (Inl JSONDecodeError, [Net (Get (key_url ''me'' ''repo'') ''tok'')])"
  by (simp add: update_github_secret_outcome publish_outcome_def w_ok_def reply_304_def
      reply_no_json_def map_of_key_answer)

text \<open>
  C8 (amended). \<^verbatim>\<open>send_telegram_message\<close> and \<^verbatim>\<open>send_telegram_photo\<close> never raise: each
  returns a boolean, true exactly when the request was accepted (for the photo: the file
  could be opened and the request was accepted), false on a network error, on a status
  in 400 to 599 and on an unreadable file. Each returns false after logging: when the
  result is false, the last thing the function did is to print the line that reports the
  failure with its exception; when the result is true, nothing is printed. The text call
  sends its one request; the photo call opens the file and, if that succeeds, sends its
  one request. With the notifier configured, the success notification performs the
  actions of the text call followed by those of the photo call, whatever the text call
  returned, and the photo call always acts. Replacing the answers to the notifier's
  requests and the readability of files by any others leaves the exit code of \<^verbatim>\<open>main\<close>
  unchanged.
\<close>

theorem notifier_contract:
  "fst (send_telegram_message w bot_token chat_id message)
     = Inr (accepted w (PostJson (message_url bot_token) chat_id message)) \<and>
   fst (send_telegram_photo w bot_token chat_id photo_path caption)
     = Inr (readable w photo_path \<and>
            accepted w (PostPhoto (photo_url bot_token) chat_id caption photo_path)) \<and>
   (notifier_configured env \<longrightarrow>
      fst (notify_success w env logs) = Inr () \<and>
      snd (notify_success w env logs) =
        snd (send_telegram_message w (get_default (TG_BOT_TOKEN env) [])
               (get_default (TG_CHAT_ID env) []) (success_message (clock w) logs))
        @ snd (send_telegram_photo w (get_default (TG_BOT_TOKEN env) [])
               (get_default (TG_CHAT_ID env) []) SCREENSHOT_PATH ''Zeabur dashboard'')) \<and>
   snd (send_telegram_photo w bot_token chat_id photo_path caption) \<noteq> [] \<and>
   exit_code (fst (main (with_notifier w answers can_read) env)) = exit_code (fst (main w env)) \<and>
   snd (send_telegram_message w bot_token chat_id message)
     = Net (PostJson (message_url bot_token) chat_id message) #
       (if accepted w (PostJson (message_url bot_token) chat_id message) then []
        else [Print (''Telegram message failed: '' @
                     str_exn (failure_of w (PostJson (message_url bot_token) chat_id message)))]) \<and>
   snd (send_telegram_photo w bot_token chat_id photo_path caption)
     = OpenFile photo_path #
       (if \<not> readable w photo_path then [Print (''Telegram photo failed: '' @ str_exn OSError)]
        else Net (PostPhoto (photo_url bot_token) chat_id caption photo_path) #
          (if accepted w (PostPhoto (photo_url bot_token) chat_id caption photo_path) then []
           else [Print (''Telegram photo failed: '' @
                        str_exn (failure_of w (PostPhoto (photo_url bot_token) chat_id caption photo_path)))]))"
proof -
  note a = fst_send_telegram_message[of w bot_token chat_id message]
  note b = fst_send_telegram_photo[of w bot_token chat_id photo_path caption]
  have c: "notifier_configured env \<longrightarrow>
      fst (notify_success w env logs) = Inr () \<and>
      snd (notify_success w env logs) =
        snd (send_telegram_message w (get_default (TG_BOT_TOKEN env) [])
               (get_default (TG_CHAT_ID env) []) (success_message (clock w) logs))
        @ snd (send_telegram_photo w (get_default (TG_BOT_TOKEN env) [])
               (get_default (TG_CHAT_ID env) []) SCREENSHOT_PATH ''Zeabur dashboard'')"
    using fst_notify_success snd_notify_success by blast
  have d: "snd (send_telegram_photo w bot_token chat_id photo_path caption) \<noteq> []"
    unfolding snd_send_telegram_photo by (rule list.simps)
  have e: "exit_code (fst (main (with_notifier w answers can_read) env)) = exit_code (fst (main w env))"
    by (simp only: fst_main_with_notifier)
  note f = snd_send_telegram_message[of w bot_token chat_id message]
  note g = snd_send_telegram_photo[of w bot_token chat_id photo_path caption]
  from a b c d e f g show ?thesis by (intro conjI)
qed

theorem notifier_contract_witness:
  "notifier_configured env_all \<and>
   send_telegram_message (w_ok\<lparr>reply_of := reply_denied\<rparr>) ''bot'' ''42''
       (success_message ''2026'' [''visited'']) =
     (Inr False,
      [Net (PostJson (message_url ''bot'') ''42'' (success_message ''2026'' [''visited''])),
       Print ''Telegram message failed: RequestException'']) \<and>
   send_telegram_photo (w_ok\<lparr>reply_of := reply_denied, readable := (\<lambda>f. False)\<rparr>) ''bot'' ''42''
       SCREENSHOT_PATH ''Zeabur dashboard'' =
     (Inr False, [OpenFile SCREENSHOT_PATH, Print ''Telegram photo failed: OSError'']) \<and>
   send_telegram_photo w_ok ''bot'' ''42'' SCREENSHOT_PATH ''Zeabur dashboard'' =
     (Inr True,
      [OpenFile SCREENSHOT_PATH,
       Net (PostPhoto (photo_url ''bot'') ''42'' ''Zeabur dashboard'' SCREENSHOT_PATH)]) \<and>
   snd (notify_success (w_ok\<lparr>reply_of := reply_denied\<rparr>) env_all [''visited'']) =
     [Net (PostJson (message_url ''bot'') ''42'' (success_message ''2026'' [''visited''])),
      Print ''Telegram message failed: RequestException'',
      OpenFile SCREENSHOT_PATH,
      Net (PostPhoto (photo_url ''bot'') ''42'' ''Zeabur dashboard'' SCREENSHOT_PATH),
      Print ''Telegram photo failed: HTTPError'']"
proof -
  let ?w = "w_ok\<lparr>reply_of := reply_denied\<rparr>"
  let ?u = "w_ok\<lparr>reply_of := reply_denied, readable := (\<lambda>f. False)\<rparr>"
  let ?m = "PostJson (message_url ''bot'') ''42'' (success_message ''2026'' [''visited''])"
  let ?p = "PostPhoto (photo_url ''bot'') ''42'' ''Zeabur dashboard'' SCREENSHOT_PATH"
  have h: "notifier_configured env_all"
    by (simp add: notifier_configured_def env_all_def truthy_def)
  note t = notifier_contract[of ?w "''bot''" "''42''" "success_message ''2026'' [''visited'']"
      SCREENSHOT_PATH "''Zeabur dashboard''" env_all "[''visited'']"]
  note u = notifier_contract[of ?u "''bot''" "''42''" "success_message ''2026'' [''visited'']"
      SCREENSHOT_PATH "''Zeabur dashboard''"]
  note v = notifier_contract[of w_ok "''bot''" "''42''" "success_message ''2026'' [''visited'']"
      SCREENSHOT_PATH "''Zeabur dashboard''"]
  have a: "\<not> accepted ?w ?m" "failure_of ?w ?m = RequestException"
      "\<not> accepted ?w ?p" "failure_of ?w ?p = HTTPError 403" "accepted w_ok ?p"
    by (simp_all add: accepted_def failure_of_def reply_denied_def w_ok_def)
  have e: "get_default (TG_BOT_TOKEN env_all) [] = ''bot''" "get_default (TG_CHAT_ID env_all) [] = ''42''"
      "clock ?w = ''2026''" "readable ?w SCREENSHOT_PATH" "\<not> readable ?u SCREENSHOT_PATH"
      "readable w_ok SCREENSHOT_PATH"
    by (simp_all add: env_all_def get_default_def w_ok_def)
  have m1: "fst (send_telegram_message ?w ''bot'' ''42'' (success_message ''2026'' [''visited''])) = Inr False"
    using t[THEN conjunct1] a by simp
  have m2: "snd (send_telegram_message ?w ''bot'' ''42'' (success_message ''2026'' [''visited'']))
      = [Net ?m, Print ''Telegram message failed: RequestException'']"
    using t[THEN conjunct2, THEN conjunct2, THEN conjunct2, THEN conjunct2, THEN conjunct2, THEN conjunct1]
      a by simp
  have 1: "send_telegram_message ?w ''bot'' ''42'' (success_message ''2026'' [''visited''])
      = (Inr False, [Net ?m, Print ''Telegram message failed: RequestException''])"
    using m1 m2 by (simp add: prod_eq_iff)
  have p1: "fst (send_telegram_photo ?u ''bot'' ''42'' SCREENSHOT_PATH ''Zeabur dashboard'') = Inr False"
    using u[THEN conjunct2, THEN conjunct1] e by simp
  have p2: "snd (send_telegram_photo ?u ''bot'' ''42'' SCREENSHOT_PATH ''Zeabur dashboard'')
      = [OpenFile SCREENSHOT_PATH, Print ''Telegram photo failed: OSError'']"
    using u[THEN conjunct2, THEN conjunct2, THEN conjunct2, THEN conjunct2, THEN conjunct2, THEN conjunct2]
      e by simp
  have 2: "send_telegram_photo ?u ''bot'' ''42'' SCREENSHOT_PATH ''Zeabur dashboard''
      = (Inr False, [OpenFile SCREENSHOT_PATH, Print ''Telegram photo failed: OSError''])"
    using p1 p2 by (simp add: prod_eq_iff)
  have q1: "fst (send_telegram_photo w_ok ''bot'' ''42'' SCREENSHOT_PATH ''Zeabur dashboard'') = Inr True"
    using v[THEN conjunct2, THEN conjunct1] e a by simp
  have q2: "snd (send_telegram_photo w_ok ''bot'' ''42'' SCREENSHOT_PATH ''Zeabur dashboard'')
      = [OpenFile SCREENSHOT_PATH, Net ?p]"
    using v[THEN conjunct2, THEN conjunct2, THEN conjunct2, THEN conjunct2, THEN conjunct2, THEN conjunct2]
      e a by simp
  have 3: "send_telegram_photo w_ok ''bot'' ''42'' SCREENSHOT_PATH ''Zeabur dashboard''
      = (Inr True, [OpenFile SCREENSHOT_PATH, Net ?p])"
    using q1 q2 by (simp add: prod_eq_iff)
  have p3: "snd (send_telegram_photo ?w ''bot'' ''42'' SCREENSHOT_PATH ''Zeabur dashboard'')
      = [OpenFile SCREENSHOT_PATH, Net ?p, Print ''Telegram photo failed: HTTPError'']"
    using t[THEN conjunct2, THEN conjunct2, THEN conjunct2, THEN conjunct2, THEN conjunct2, THEN conjunct2]
      e a by simp
  have 4: "snd (notify_success ?w env_all [''visited'']) =
     [Net ?m, Print ''Telegram message failed: RequestException'',
      OpenFile SCREENSHOT_PATH, Net ?p, Print ''Telegram photo failed: HTTPError'']"
    using t[THEN conjunct2, THEN conjunct2, THEN conjunct1, THEN mp, OF h, THEN conjunct2]
    by (simp only: e m2 p3 append.simps)
  from h 1 2 3 4 show ?thesis by (intro conjI)
qed

text \<open>
  C8 as stated fails for a status outside 200 to 299 that \<^verbatim>\<open>raise_for_status\<close> lets
  pass: the message is answered 304, and \<^verbatim>\<open>send_telegram_message\<close> returns true, having
  printed nothing.
\<close>

theorem notifier_counterexample:
  "reply_of (w_ok\<lparr>reply_of := reply_304\<rparr>) (PostJson (message_url ''bot'') ''42'' ''hi'')
     = Response 304 None \<and>
   \<not> (200 \<le> (304::nat) \<and> (304::nat) < 300) \<and>
   send_telegram_message (w_ok\<lparr>reply_of := reply_304\<rparr>) ''bot'' ''42'' ''hi''
     = (Inr True, [Net (PostJson (message_url ''bot'') ''42'' ''hi'')])"
  by (simp add: prod_eq_iff fst_send_telegram_message snd_send_telegram_message accepted_def
      reply_304_def)

text \<open>
  C9. The exit code of \<^verbatim>\<open>main\<close> is 0 or 1. It is 0 exactly when \<^verbatim>\<open>ZEABUR_COOKIE\<close> is set
  and not empty, the browser starts, the validation returns success, the rest of the
  \<^verbatim>\<open>try\<close> block raises nothing and closing the browser raises nothing. Without the cookie
  variable \<^verbatim>\<open>main\<close> exits with 1 having performed no action at all. When the validation
  returns failure the exit code is 1. The rest of the \<^verbatim>\<open>try\<close> block raises nothing exactly
  when the screenshot and the reading of the cookies succeed and the secret, if it is to
  be published, is published: the notifier has no part in it.
\<close>

theorem exit_code_contract:
  "(exit_code (fst (main w env)) = 0 \<longleftrightarrow>
      (\<exists>cookie page ctx'.
         ZEABUR_COOKIE env = Some cookie \<and> cookie \<noteq> [] \<and> launch_ok w \<and>
         login_with_cookie (site_of w) new_context cookie 2 = Inr ((page, True), ctx') \<and>
         fst (after_login w env page) = Inr () \<and> close_ok w)) \<and>
   (exit_code (fst (main w env)) = 0 \<or> exit_code (fst (main w env)) = 1) \<and>
   (\<not> truthy (ZEABUR_COOKIE env) \<longrightarrow> main w env = (Inl (SystemExit 1), [])) \<and>
   (\<forall>cookie page ctx'.
      ZEABUR_COOKIE env = Some cookie \<and>
      login_with_cookie (site_of w) new_context cookie 2 = Inr ((page, False), ctx')
        \<longrightarrow> exit_code (fst (main w env)) = 1) \<and>
   (\<forall>page. (fst (after_login w env page) = Inr ()) =
      (screenshot_ok w \<and> (\<exists>harvested. jar_of w = Inr harvested \<and> published w env harvested)))"
proof (cases "truthy (ZEABUR_COOKIE env)")
  case False
  then have m: "main w env = (Inl (SystemExit 1), [])" by (rule main_no_cookie)
  have "\<not> (\<exists>cookie. ZEABUR_COOKIE env = Some cookie \<and> cookie \<noteq> [])"
    using False by (auto simp: truthy_def)
  then show ?thesis
    using False by (auto simp: m exit_code_def fst_after_login)
next
  case True
  then obtain c where c: "ZEABUR_COOKIE env = Some c" "c \<noteq> []"
    by (auto simp: truthy_def split: option.splits)
  obtain page ok ctx' where l: "login_with_cookie (site_of w) new_context c 2 = Inr ((page, ok), ctx')"
    using login_returns by blast
  note v = fst_main[OF c l]
  have code: "exit_code (fst (main w env)) =
     (if launch_ok w \<and> close_ok w \<and> ok \<and> fst (after_login w env page) = Inr () then 0 else 1)"
    by (simp add: v exit_code_def)
  have 1: "exit_code (fst (main w env)) = 0 \<longleftrightarrow>
      (\<exists>cookie page ctx'.
         ZEABUR_COOKIE env = Some cookie \<and> cookie \<noteq> [] \<and> launch_ok w \<and>
         login_with_cookie (site_of w) new_context cookie 2 = Inr ((page, True), ctx') \<and>
         fst (after_login w env page) = Inr () \<and> close_ok w)"
    using c l by (auto simp: code)
  have 2: "exit_code (fst (main w env)) = 0 \<or> exit_code (fst (main w env)) = 1"
    by (simp add: code)
  have 3: "\<not> truthy (ZEABUR_COOKIE env) \<longrightarrow> main w env = (Inl (SystemExit 1), [])"
    using True by simp
  have 4: "\<forall>cookie page ctx'.
      ZEABUR_COOKIE env = Some cookie \<and>
      login_with_cookie (site_of w) new_context cookie 2 = Inr ((page, False), ctx')
        \<longrightarrow> exit_code (fst (main w env)) = 1"
    using c l by (auto simp: code)
  have 5: "\<forall>page. (fst (after_login w env page) = Inr ()) =
      (screenshot_ok w \<and> (\<exists>harvested. jar_of w = Inr harvested \<and> published w env harvested))"
    by (simp add: fst_after_login)
  from 1 2 3 4 5 show ?thesis by (intro conjI)
qed

theorem exit_code_contract_witness:
  "exit_code (fst (main w_ok env_all)) = 0 \<and>
   (\<exists>cookie page ctx'.
       ZEABUR_COOKIE env_all = Some cookie \<and> cookie \<noteq> [] \<and> launch_ok w_ok \<and>
       login_with_cookie (site_of w_ok) new_context cookie 2 = Inr ((page, True), ctx') \<and>
       fst (after_login w_ok env_all page) = Inr () \<and> close_ok w_ok) \<and>
   \<not> truthy (ZEABUR_COOKIE (env_all\<lparr>ZEABUR_COOKIE := None\<rparr>)) \<and>
   main w_ok (env_all\<lparr>ZEABUR_COOKIE := None\<rparr>) = (Inl (SystemExit 1), []) \<and>
   exit_code (fst (main (w_ok\<lparr>site_of := site_down\<rparr>) env_all)) = 1"
proof -
  note t = exit_code_contract[of w_ok env_all]
  have 1: "\<exists>cookie page ctx'.
       ZEABUR_COOKIE env_all = Some cookie \<and> cookie \<noteq> [] \<and> launch_ok w_ok \<and>
       login_with_cookie (site_of w_ok) new_context cookie 2 = Inr ((page, True), ctx') \<and>
       fst (after_login w_ok env_all page) = Inr () \<and> close_ok w_ok"
    using t[THEN conjunct1] run_ok by (rule iffD1)
  have n: "\<not> truthy (ZEABUR_COOKIE (env_all\<lparr>ZEABUR_COOKIE := None\<rparr>))"
    by (simp add: truthy_def)
  have 2: "main w_ok (env_all\<lparr>ZEABUR_COOKIE := None\<rparr>) = (Inl (SystemExit 1), [])"
    using exit_code_contract[of w_ok "env_all\<lparr>ZEABUR_COOKIE := None\<rparr>",
        THEN conjunct2, THEN conjunct2, THEN conjunct1] n by (rule mp)
  have c: "ZEABUR_COOKIE env_all = Some ''sid=1''" by (simp add: env_all_def)
  have 3: "exit_code (fst (main (w_ok\<lparr>site_of := site_down\<rparr>) env_all)) = 1"
    using exit_code_contract[of "w_ok\<lparr>site_of := site_down\<rparr>" env_all,
        THEN conjunct2, THEN conjunct2, THEN conjunct2, THEN conjunct1, THEN spec, THEN spec, THEN spec,
        THEN mp, OF conjI[OF c run_down]] .
  from run_ok 1 n 2 3 show ?thesis by (intro conjI)
qed

end
